theory Spec2Isabelle
  imports Complex_Main "HOL-Library.Word"
begin

section \<open>The nvtrc trace container: data model\<close>

text \<open>
  The development embeds \<^verbatim>\<open>src/nv/NvTraceFormat.h\<close> and the adapter
  \<^verbatim>\<open>src/gpuvis-nvtrc.cpp\<close>. Fixed-width integers are machine words;
  signed arithmetic wraps in two's complement, as it does on the targets of this code.
  The structs are written to disk as their object representation, so each struct comes
  with its byte image. Multi-byte fields are little-endian (the format is the writing
  host's native layout; the sync counters are x86 RDTSC values), and neither struct has
  padding: 16 + 239 + 1 + 4 * 8 = 288 bytes and 2 + 2 + 4 + 8 + 8 = 24 bytes.
\<close>

type_synonym byte = "8 word"
type_synonym uint16_t = "16 word"
type_synonym int32_t = "32 word"
type_synonym uint32_t = "32 word"
type_synonym int64_t = "64 word"
type_synonym uint64_t = "64 word"
type_synonym size_t = "64 word"

subsection \<open>Object representation of integers\<close>

fun le_bytes :: "nat \<Rightarrow> nat \<Rightarrow> byte list" where
  "le_bytes 0 v = []"
| "le_bytes (Suc n) v = of_nat (v mod 256) # le_bytes n (v div 256)"

fun le_value :: "byte list \<Rightarrow> nat" where
  "le_value [] = 0"
| "le_value (b # bs) = unat b + 256 * le_value bs"

definition bytes_of_word :: "nat \<Rightarrow> 'a::len word \<Rightarrow> byte list" where
  "bytes_of_word n w = le_bytes n (unat w)"

definition word_of_bytes :: "byte list \<Rightarrow> 'a::len word" where
  "word_of_bytes bs = of_nat (le_value bs)"

subsection \<open>Structs\<close>

text \<open>\<^verbatim>\<open>static const std::array<char, 8> nvtrc01Magic{"nvtrc01"}\<close>: seven characters and the
  terminating zero.\<close>

definition nvtrc01Magic :: "byte list" where
  "nvtrc01Magic = [0x6E, 0x76, 0x74, 0x72, 0x63, 0x30, 0x31, 0x00]"

record ArrayHeader =
  count :: int32_t
  elementSize :: int32_t

definition bytes_of_ArrayHeader :: "ArrayHeader \<Rightarrow> byte list" where
  "bytes_of_ArrayHeader h = bytes_of_word 4 (count h) @ bytes_of_word 4 (elementSize h)"

definition ArrayHeader_of_bytes :: "byte list \<Rightarrow> ArrayHeader" where
  "ArrayHeader_of_bytes bs =
     \<lparr>count = word_of_bytes (take 4 bs), elementSize = word_of_bytes (take 4 (drop 4 bs))\<rparr>"

text \<open>\<^verbatim>\<open>uuid\<close> is \<^verbatim>\<open>uint8_t[16]\<close> and \<^verbatim>\<open>name\<close> is \<^verbatim>\<open>char[239]\<close>; the enum
  \<^verbatim>\<open>GpuCtxSwTraceError8\<close> is stored in its underlying \<^verbatim>\<open>uint8_t\<close>.\<close>

record DeviceDesc =
  uuid :: "byte list"
  name :: "byte list"
  gpuCtxSwTraceError :: byte
  cpuTimestampStart :: int64_t
  gpuTimestampStart :: int64_t
  cpuTimestampEnd :: int64_t
  gpuTimestampEnd :: int64_t

definition sizeof_name :: nat where
  "sizeof_name = 239"

definition sizeof_DeviceDesc :: nat where
  "sizeof_DeviceDesc = 288"

definition DeviceDesc_wf :: "DeviceDesc \<Rightarrow> bool" where
  "DeviceDesc_wf d \<longleftrightarrow> length (uuid d) = 16 \<and> length (name d) = 239"

definition bytes_of_DeviceDesc :: "DeviceDesc \<Rightarrow> byte list" where
  "bytes_of_DeviceDesc d =
     uuid d @ name d @ [gpuCtxSwTraceError d]
     @ bytes_of_word 8 (cpuTimestampStart d) @ bytes_of_word 8 (gpuTimestampStart d)
     @ bytes_of_word 8 (cpuTimestampEnd d) @ bytes_of_word 8 (gpuTimestampEnd d)"

definition DeviceDesc_of_bytes :: "byte list \<Rightarrow> DeviceDesc" where
  "DeviceDesc_of_bytes bs =
     \<lparr>uuid = take 16 bs,
      name = take 239 (drop 16 bs),
      gpuCtxSwTraceError = hd (drop 255 bs),
      cpuTimestampStart = word_of_bytes (take 8 (drop 256 bs)),
      gpuTimestampStart = word_of_bytes (take 8 (drop 264 bs)),
      cpuTimestampEnd = word_of_bytes (take 8 (drop 272 bs)),
      gpuTimestampEnd = word_of_bytes (take 8 (drop 280 bs))\<rparr>"

text \<open>A value-initialised \<^verbatim>\<open>DeviceDesc\<close>, as \<^verbatim>\<open>std::vector::resize\<close> creates it.\<close>

definition DeviceDesc_zero :: DeviceDesc where
  "DeviceDesc_zero =
     \<lparr>uuid = replicate 16 0, name = replicate 239 0, gpuCtxSwTraceError = 0,
      cpuTimestampStart = 0, gpuTimestampStart = 0, cpuTimestampEnd = 0, gpuTimestampEnd = 0\<rparr>"

text \<open>The enums \<^verbatim>\<open>Category16\<close> and \<^verbatim>\<open>TypeGpuCtxSw16\<close> are stored in their underlying
  \<^verbatim>\<open>uint16_t\<close>; a record read from disk holds whatever the two bytes say.\<close>

record RecordGpuCtxSw =
  category :: uint16_t
  type :: uint16_t
  processId :: uint32_t
  timestamp :: int64_t
  contextHandle :: uint64_t

definition sizeof_RecordGpuCtxSw :: nat where
  "sizeof_RecordGpuCtxSw = 24"

definition bytes_of_RecordGpuCtxSw :: "RecordGpuCtxSw \<Rightarrow> byte list" where
  "bytes_of_RecordGpuCtxSw r =
     bytes_of_word 2 (category r) @ bytes_of_word 2 (type r) @ bytes_of_word 4 (processId r)
     @ bytes_of_word 8 (timestamp r) @ bytes_of_word 8 (contextHandle r)"

definition RecordGpuCtxSw_of_bytes :: "byte list \<Rightarrow> RecordGpuCtxSw" where
  "RecordGpuCtxSw_of_bytes bs =
     \<lparr>category = word_of_bytes (take 2 bs),
      type = word_of_bytes (take 2 (drop 2 bs)),
      processId = word_of_bytes (take 4 (drop 4 bs)),
      timestamp = word_of_bytes (take 8 (drop 8 bs)),
      contextHandle = word_of_bytes (take 8 (drop 16 bs))\<rparr>"

definition RecordGpuCtxSw_zero :: RecordGpuCtxSw where
  "RecordGpuCtxSw_zero =
     \<lparr>category = 0, type = 0, processId = 0, timestamp = 0, contextHandle = 0\<rparr>"

record FileData =
  deviceDescs :: "DeviceDesc list"
  perDeviceData :: "RecordGpuCtxSw list list"

definition FileData_empty :: FileData where
  "FileData_empty = \<lparr>deviceDescs = [], perDeviceData = []\<rparr>"

section \<open>Streams\<close>

text \<open>
  An input file stream is the bytes not yet read and the fail bit (\<^verbatim>\<open>!ifs\<close>).
  \<^verbatim>\<open>ifs.read(p, n)\<close> does nothing on a failed stream; otherwise it stores the bytes it
  can get, at most \<^verbatim>\<open>n\<close>, and sets the fail bit when it got fewer than \<^verbatim>\<open>n\<close>. With
  a negative \<^verbatim>\<open>n\<close> the stream buffer delivers no byte, which is not \<^verbatim>\<open>n\<close> bytes, so
  nothing is stored and the fail bit is set (libstdc++ and libc++ agree on this). The
  second component of the result is the bytes stored.
\<close>

record ifstream =
  unread :: "byte list"
  failbit :: bool

definition ifstream_open :: "byte list option \<Rightarrow> ifstream" where
  "ifstream_open file =
     (case file of None \<Rightarrow> \<lparr>unread = [], failbit = True\<rparr>
      | Some bs \<Rightarrow> \<lparr>unread = bs, failbit = False\<rparr>)"

definition ifs_read :: "ifstream \<Rightarrow> int \<Rightarrow> ifstream \<times> byte list" where
  "ifs_read ifs n =
     (if failbit ifs then (ifs, [])
      else if n < 0 then (ifs\<lparr>failbit := True\<rparr>, [])
      else (\<lparr>unread = drop (nat n) (unread ifs), failbit = (length (unread ifs) < nat n)\<rparr>,
            take (nat n) (unread ifs)))"

text \<open>An output file stream is the bytes written so far and the bad bit. \<^verbatim>\<open>ofs.write(p, n)\<close>
  appends the first \<^verbatim>\<open>n\<close> bytes of the memory at \<^verbatim>\<open>p\<close>; with a negative \<^verbatim>\<open>n\<close> the
  stream buffer accepts no byte, so nothing is written and the bad bit is set; a stream
  that is already bad ignores the call. (Errors of the device, such as a full disk, are
  not modelled.)\<close>

record ofstream =
  written :: "byte list"
  badbit :: bool

definition ofs_write :: "ofstream \<Rightarrow> byte list \<Rightarrow> int \<Rightarrow> ofstream" where
  "ofs_write ofs mem n =
     (if badbit ofs then ofs
      else if n < 0 then ofs\<lparr>badbit := True\<rparr>
      else ofs\<lparr>written := written ofs @ take (nat n) mem\<rparr>)"

section \<open>The versioned array codec\<close>

text \<open>\<^verbatim>\<open>std::vector::resize\<close>: keep the first \<^verbatim>\<open>n\<close> elements, append value-initialised
  ones up to \<^verbatim>\<open>n\<close>.\<close>

definition resize :: "nat \<Rightarrow> 'a \<Rightarrow> 'a list \<Rightarrow> 'a list" where
  "resize n z xs = take n xs @ replicate (n - length xs) z"

text \<open>Storing \<^verbatim>\<open>got\<close> at the start of a memory area that held \<^verbatim>\<open>mem\<close>.\<close>

definition store :: "byte list \<Rightarrow> byte list \<Rightarrow> byte list" where
  "store got mem = got @ drop (length got) mem"

text \<open>The memory of a vector is the images of its elements, one after the other.\<close>

fun chunks :: "nat \<Rightarrow> nat \<Rightarrow> byte list \<Rightarrow> byte list list" where
  "chunks sz 0 mem = []"
| "chunks sz (Suc k) mem = take sz mem # chunks sz k (drop sz mem)"

text \<open>How a call leaves: by \<^verbatim>\<open>return true\<close>, by \<^verbatim>\<open>return false\<close>, or by the
  \<^verbatim>\<open>std::length_error\<close> that \<^verbatim>\<open>resize\<close> throws when a negative \<^verbatim>\<open>int32_t\<close> count
  is converted to \<^verbatim>\<open>size_t\<close>. (Memory is assumed sufficient for every other count.)\<close>

datatype outcome = ReturnedTrue | ReturnedFalse | ThrewLengthError

text \<open>The type parameter \<^verbatim>\<open>T\<close> of the templates is given by \<^verbatim>\<open>sizeof(T)\<close>, the byte image
  of a \<^verbatim>\<open>T\<close>, its inverse, and the value-initialised \<^verbatim>\<open>T\<close>.\<close>

record 'a layout =
  sizeof :: nat
  to_bytes :: "'a \<Rightarrow> byte list"
  from_bytes :: "byte list \<Rightarrow> 'a"
  zero_value :: 'a

definition DeviceDesc_layout :: "DeviceDesc layout" where
  "DeviceDesc_layout =
     \<lparr>sizeof = sizeof_DeviceDesc, to_bytes = bytes_of_DeviceDesc,
      from_bytes = DeviceDesc_of_bytes, zero_value = DeviceDesc_zero\<rparr>"

definition RecordGpuCtxSw_layout :: "RecordGpuCtxSw layout" where
  "RecordGpuCtxSw_layout =
     \<lparr>sizeof = sizeof_RecordGpuCtxSw, to_bytes = bytes_of_RecordGpuCtxSw,
      from_bytes = RecordGpuCtxSw_of_bytes, zero_value = RecordGpuCtxSw_zero\<rparr>"

text \<open>A value whose image has the struct's size and is read back as the value itself.\<close>

definition layout_ok :: "'a layout \<Rightarrow> 'a \<Rightarrow> bool" where
  "layout_ok T x \<longleftrightarrow> length (to_bytes T x) = sizeof T \<and> from_bytes T (to_bytes T x) = x"

text \<open>The loop \<^verbatim>\<open>for (T& elem : buffer) ifs.read(&elem, sizeof(T))\<close>.\<close>

fun read_each :: "'a layout \<Rightarrow> ifstream \<Rightarrow> 'a list \<Rightarrow> ifstream \<times> 'a list" where
  "read_each T ifs [] = (ifs, [])"
| "read_each T ifs (elem # rest) =
     (let (ifs1, got) = ifs_read ifs (int (sizeof T));
          elem1 = from_bytes T (store got (to_bytes T elem));
          (ifs2, rest1) = read_each T ifs1 rest
      in (ifs2, elem1 # rest1))"

text \<open>
  \<^verbatim>\<open>ReadVector\<close>. The comparisons of \<^verbatim>\<open>header.elementSize\<close> with \<^verbatim>\<open>sizeof(T)\<close> are
  between an \<^verbatim>\<open>int32_t\<close> and a \<^verbatim>\<open>size_t\<close>: the usual arithmetic conversions turn the
  \<^verbatim>\<open>int32_t\<close> into a \<^verbatim>\<open>size_t\<close> (sign extension, \<open>scast\<close>) and compare unsigned.
  \<^verbatim>\<open>header.count * header.elementSize\<close> is a product of two \<^verbatim>\<open>int32_t\<close>, which wraps,
  passed on as a signed stream size. When the vector is empty, \<^verbatim>\<open>&buffer[0]\<close> is only
  formed, for a transfer of zero bytes.
\<close>

definition ReadVector ::
    "'a layout \<Rightarrow> ifstream \<Rightarrow> 'a list \<Rightarrow> outcome \<times> ifstream \<times> 'a list" where
  "ReadVector T ifs buffer =
     (let (ifs1, hbytes) = ifs_read ifs 8 in
      if failbit ifs1 then (ReturnedFalse, ifs1, buffer)
      else
        let header = ArrayHeader_of_bytes hbytes in
        if sint (count header) < 0 then (ThrewLengthError, ifs1, buffer)
        else
          let buffer1 = resize (nat (sint (count header))) (zero_value T) buffer in
          if (scast (elementSize header) :: size_t) = of_nat (sizeof T) then
            let (ifs2, got) = ifs_read ifs1 (sint (count header * elementSize header));
                mem = store got (concat (map (to_bytes T) buffer1));
                buffer2 = map (from_bytes T) (chunks (sizeof T) (length buffer1) mem)
            in (if failbit ifs2 then ReturnedFalse else ReturnedTrue, ifs2, buffer2)
          else if (scast (elementSize header) :: size_t) > of_nat (sizeof T) then
            let (ifs2, buffer2) = read_each T ifs1 buffer1
            in (if failbit ifs2 then ReturnedFalse else ReturnedTrue, ifs2, buffer2)
          else (ReturnedFalse, ifs1, buffer1))"

text \<open>\<^verbatim>\<open>WriteVector\<close>: the header, then \<^verbatim>\<open>count * elementSize\<close> bytes of the vector's
  memory (none for an empty vector, where \<^verbatim>\<open>&buffer[0]\<close> is only formed).\<close>

definition WriteVector :: "'a layout \<Rightarrow> ofstream \<Rightarrow> 'a list \<Rightarrow> ofstream" where
  "WriteVector T ofs buffer =
     (let header = \<lparr>count = of_nat (length buffer), elementSize = of_nat (sizeof T)\<rparr>;
          ofs1 = ofs_write ofs (bytes_of_ArrayHeader header) 8
      in ofs_write ofs1 (concat (map (to_bytes T) buffer))
           (sint (count header * elementSize header)))"

section \<open>The file codec\<close>

text \<open>The loop of \<^verbatim>\<open>ReadFileData\<close> over \<^verbatim>\<open>fileData.perDeviceData\<close>; it leaves at the first
  array that is not read.\<close>

fun read_perDeviceData ::
    "ifstream \<Rightarrow> RecordGpuCtxSw list list \<Rightarrow> outcome \<times> ifstream \<times> RecordGpuCtxSw list list" where
  "read_perDeviceData ifs [] = (ReturnedTrue, ifs, [])"
| "read_perDeviceData ifs (deviceData # rest) =
     (case ReadVector RecordGpuCtxSw_layout ifs deviceData of
        (ReturnedTrue, ifs1, deviceData1) \<Rightarrow>
          (case read_perDeviceData ifs1 rest of
             (r, ifs2, rest1) \<Rightarrow> (r, ifs2, deviceData1 # rest1))
      | (r, ifs1, deviceData1) \<Rightarrow> (r, ifs1, deviceData1 # rest))"

text \<open>
  \<^verbatim>\<open>ReadFileData\<close>. The file is its content, or \<open>None\<close> when it cannot be opened. The
  result is how the call leaves, the \<^verbatim>\<open>fileData\<close> out-parameter as the caller then
  sees it, and the stream as it was when the call left (what was read and what was not).
\<close>

definition ReadFileData :: "byte list option \<Rightarrow> outcome \<times> FileData \<times> ifstream" where
  "ReadFileData inputFile =
     (let fileData = FileData_empty;
          ifs = ifstream_open inputFile
      in if failbit ifs then (ReturnedFalse, fileData, ifs)
      else
        let (ifs1, magic) = ifs_read ifs 8 in
        if failbit ifs1 then (ReturnedFalse, fileData, ifs1)
        else if magic \<noteq> nvtrc01Magic then (ReturnedFalse, fileData, ifs1)
        else
          (case ReadVector DeviceDesc_layout ifs1 (deviceDescs fileData) of
             (ReturnedTrue, ifs2, descs) \<Rightarrow>
               let fileData1 = fileData\<lparr>deviceDescs := descs\<rparr>;
                   fileData2 = fileData1\<lparr>perDeviceData :=
                     resize (length (deviceDescs fileData1)) [] (perDeviceData fileData1)\<rparr>
               in (case read_perDeviceData ifs2 (perDeviceData fileData2) of
                     (r, ifs3, perDevice) \<Rightarrow> (r, fileData2\<lparr>perDeviceData := perDevice\<rparr>, ifs3))
           | (r, ifs2, descs) \<Rightarrow> (r, fileData\<lparr>deviceDescs := descs\<rparr>, ifs2)))"

text \<open>The loop of \<^verbatim>\<open>WriteFileData\<close> over \<^verbatim>\<open>fileData.perDeviceData\<close>.\<close>

fun write_perDeviceData :: "ofstream \<Rightarrow> RecordGpuCtxSw list list \<Rightarrow> ofstream" where
  "write_perDeviceData ofs [] = ofs"
| "write_perDeviceData ofs (deviceData # rest) =
     write_perDeviceData (WriteVector RecordGpuCtxSw_layout ofs deviceData) rest"

text \<open>\<^verbatim>\<open>WriteFileData\<close>. \<open>can_open\<close> says whether the output file can be opened; the result
  is the returned flag and the content of the file (\<open>None\<close> when it was never opened).\<close>

definition WriteFileData :: "bool \<Rightarrow> FileData \<Rightarrow> bool \<times> byte list option" where
  "WriteFileData can_open fileData =
     (if \<not> can_open then (False, None)
      else
        let ofs = \<lparr>written = [], badbit = False\<rparr>;
            ofs1 = ofs_write ofs nvtrc01Magic 8;
            ofs2 = WriteVector DeviceDesc_layout ofs1 (deviceDescs fileData);
            ofs3 = write_perDeviceData ofs2 (perDeviceData fileData)
        in (\<not> badbit ofs3, Some (written ofs3)))"

text \<open>What \<^verbatim>\<open>WriteVector\<close> puts into the file for a vector whose byte count fits.\<close>

definition vector_image :: "'a layout \<Rightarrow> 'a list \<Rightarrow> byte list" where
  "vector_image T xs =
     bytes_of_ArrayHeader \<lparr>count = of_nat (length xs), elementSize = of_nat (sizeof T)\<rparr>
     @ concat (map (to_bytes T) xs)"

section \<open>The timestamp converter\<close>

text \<open>
  The converter computes in \<^verbatim>\<open>double\<close>. Every \<^verbatim>\<open>double\<close> that arises here is zero or a
  finite normal number (the operands are converted 64-bit integers, and the only division
  is guarded), so a \<^verbatim>\<open>double\<close> is modelled by the real number it denotes, and each
  operation by the exact operation followed by rounding to the nearest number with a 53-bit
  significand, ties to even (\<open>to_double\<close>).
\<close>

definition round_half_even :: "real \<Rightarrow> int" where
  "round_half_even x =
     (let f = \<lfloor>x\<rfloor>; d = x - of_int f
      in if d < 1 / 2 then f else if 1 / 2 < d then f + 1 else if even f then f else f + 1)"

definition to_double :: "real \<Rightarrow> real" where
  "to_double x =
     (if x = 0 then 0
      else let e = \<lfloor>log 2 \<bar>x\<bar>\<rfloor> - 52
           in of_int (round_half_even (x / 2 powr of_int e)) * 2 powr of_int e)"

text \<open>\<^verbatim>\<open>static_cast<double>\<close> of an \<^verbatim>\<open>int64_t\<close>.\<close>

definition double_of_int64 :: "int64_t \<Rightarrow> real" where
  "double_of_int64 w = to_double (of_int (sint w))"

text \<open>\<^verbatim>\<open>static_cast<int64_t>\<close> of a \<^verbatim>\<open>double\<close> drops the fractional part (it truncates
  toward zero); the result is undefined (\<open>None\<close>) when the truncated value is not an
  \<^verbatim>\<open>int64_t\<close>.\<close>

definition trunc_to_zero :: "real \<Rightarrow> int" where
  "trunc_to_zero x = (if 0 \<le> x then \<lfloor>x\<rfloor> else \<lceil>x\<rceil>)"

definition int64_of_double :: "real \<Rightarrow> int64_t option" where
  "int64_of_double x =
     (let t = trunc_to_zero x
      in if - (2 ^ 63) \<le> t \<and> t < 2 ^ 63 then Some (word_of_int t) else None)"

record TimestampConverter =
  dstAtSyncPoint :: int64_t
  srcAtSyncPoint :: int64_t
  scale :: real

text \<open>\<^verbatim>\<open>TimestampConverter::operator()\<close>.\<close>

definition TimestampConverter_call :: "TimestampConverter \<Rightarrow> int64_t \<Rightarrow> int64_t option" where
  "TimestampConverter_call c srcTimestamp =
     (let srcDelta = srcTimestamp - srcAtSyncPoint c
      in case int64_of_double (to_double (scale c * double_of_int64 srcDelta)) of
           None \<Rightarrow> None
         | Some dstDelta \<Rightarrow> Some (dstDelta + dstAtSyncPoint c))"

text \<open>\<^verbatim>\<open>CreateTimestampConverter\<close>; \<^verbatim>\<open>srcDelta == 0.0\<close> compares the converted
  \<^verbatim>\<open>srcDelta\<close>.\<close>

definition CreateTimestampConverter ::
    "int64_t \<Rightarrow> int64_t \<Rightarrow> int64_t \<Rightarrow> int64_t \<Rightarrow> TimestampConverter" where
  "CreateTimestampConverter srcStart srcEnd dstStart dstEnd =
     (let dstDelta = dstEnd - dstStart;
          srcDelta = srcEnd - srcStart;
          scale = (if double_of_int64 srcDelta = 0 then 0
                   else to_double (double_of_int64 dstDelta / double_of_int64 srcDelta))
      in \<lparr>dstAtSyncPoint = dstEnd, srcAtSyncPoint = srcEnd, scale = scale\<rparr>)"

section \<open>Device names\<close>

definition quickMin :: "nat \<Rightarrow> nat \<Rightarrow> nat" where
  "quickMin a b = (if a < b then a else b)"

text \<open>\<^verbatim>\<open>SetName\<close>: \<^verbatim>\<open>memcpy\<close> of the first \<^verbatim>\<open>indexOfNull\<close> bytes of the string into the
  buffer, then a zero at \<^verbatim>\<open>indexOfNull\<close>. The rest of the buffer keeps what it held.\<close>

definition SetName :: "DeviceDesc \<Rightarrow> byte list \<Rightarrow> DeviceDesc" where
  "SetName desc nm =
     (let indexOfNull = quickMin (length nm) (sizeof_name - 1);
          copied = store (take indexOfNull nm) (name desc)
      in desc\<lparr>name := copied[indexOfNull := 0]\<rparr>)"

section \<open>The adapter\<close>

text \<open>
  \<^verbatim>\<open>adapt_events\<close> of \<^verbatim>\<open>gpuvis-nvtrc.cpp\<close> fills a \<^verbatim>\<open>trace_event_t\<close> for each record
  and hands it to the callback. The type \<^verbatim>\<open>trace_event_t\<close> and the macros
  \<^verbatim>\<open>INVALID_ID\<close> and \<^verbatim>\<open>TRACE_FLAG_AUTOGEN_COLOR\<close> are declared in headers of the host;
  the event is the record of the fields the adapter assigns, the two macros are
  parameters, a pooled string is the string, and the callback collects the events.
  Indexing an array outside its bounds has no defined result: \<open>None\<close>.
\<close>

record trace_event_t =
  pid :: uint32_t
  id_ev :: int
  cpu :: int
  ts :: int64_t
  flags :: int
  seqno :: int
  id_start :: int
  graph_row_id :: int
  crtc :: int
  color :: int
  duration :: int64_t
  comm :: string
  system :: string
  name_ev :: string
  user_comm :: string

definition rdtsc_to_us :: "int64_t \<Rightarrow> int64_t" where
  "rdtsc_to_us rdtsc = rdtsc"

definition namehack :: "string list" where
  "namehack = [''Invalid'', ''ContextSwitchedIn'', ''ContextSwitchedOut'']"

text \<open>\<^verbatim>\<open>namehack[int(record.type)]\<close>.\<close>

definition namehack_at :: "int \<Rightarrow> string option" where
  "namehack_at i = (if 0 \<le> i \<and> i < int (length namehack) then Some (namehack ! nat i) else None)"

definition INT64_MAX :: int64_t where
  "INT64_MAX = 0x7FFFFFFFFFFFFFFF"

text \<open>The body of the inner loop of \<^verbatim>\<open>adapt_events\<close>.\<close>

definition adapt_record :: "int \<Rightarrow> int \<Rightarrow> RecordGpuCtxSw \<Rightarrow> trace_event_t option" where
  "adapt_record INVALID_ID TRACE_FLAG_AUTOGEN_COLOR record =
     (case namehack_at (uint (type record)) of
        None \<Rightarrow> None
      | Some label \<Rightarrow>
          Some \<lparr>pid = processId record, id_ev = INVALID_ID, cpu = 0,
                ts = rdtsc_to_us (timestamp record), flags = TRACE_FLAG_AUTOGEN_COLOR,
                seqno = 0, id_start = INVALID_ID, graph_row_id = 0, crtc = - 1, color = 0,
                duration = INT64_MAX, comm = ''(event_comm)'', system = ''nvcontext'',
                name_ev = ''(event_name:'' @ label @ '')'',
                user_comm = ''(event_usercomm)''\<rparr>)"

text \<open>The inner loop, over the records of one device; \<open>events\<close> are the events the
  callback has been given so far.\<close>

fun adapt_records ::
    "int \<Rightarrow> int \<Rightarrow> trace_event_t list \<Rightarrow> RecordGpuCtxSw list \<Rightarrow> trace_event_t list option" where
  "adapt_records INVALID_ID FLAG events [] = Some events"
| "adapt_records INVALID_ID FLAG events (record # rest) =
     (case adapt_record INVALID_ID FLAG record of
        None \<Rightarrow> None
      | Some adapted \<Rightarrow> adapt_records INVALID_ID FLAG (events @ [adapted]) rest)"

text \<open>The outer loop, \<^verbatim>\<open>for (int i = 0; i < deviceDescs.size(); ++i)\<close>, from index \<open>i\<close>
  on with \<open>k\<close> devices to go; \<^verbatim>\<open>perDeviceData[i]\<close> is an access to a vector.\<close>

fun adapt_devices ::
    "int \<Rightarrow> int \<Rightarrow> FileData \<Rightarrow> trace_event_t list \<Rightarrow> nat \<Rightarrow> nat \<Rightarrow> trace_event_t list option" where
  "adapt_devices INVALID_ID FLAG fileData_src events i 0 = Some events"
| "adapt_devices INVALID_ID FLAG fileData_src events i (Suc k) =
     (if i < length (perDeviceData fileData_src) then
        (case adapt_records INVALID_ID FLAG events (perDeviceData fileData_src ! i) of
           None \<Rightarrow> None
         | Some events1 \<Rightarrow> adapt_devices INVALID_ID FLAG fileData_src events1 (Suc i) k)
      else None)"

definition adapt_events :: "int \<Rightarrow> int \<Rightarrow> FileData \<Rightarrow> trace_event_t list option" where
  "adapt_events INVALID_ID TRACE_FLAG_AUTOGEN_COLOR fileData_src =
     adapt_devices INVALID_ID TRACE_FLAG_AUTOGEN_COLOR fileData_src [] 0
       (length (deviceDescs fileData_src))"

section \<open>Basic facts about the byte images\<close>

lemma length_le_bytes [simp]: "length (le_bytes n v) = n"
  by (induction n arbitrary: v) auto

lemma le_value_le_bytes: "le_value (le_bytes n v) = v mod 256 ^ n"
proof (induction n arbitrary: v)
  case 0
  then show ?case by simp
next
  case (Suc n)
  have "unat (of_nat (v mod 256) :: byte) = v mod 256"
    by (simp add: unat_of_nat)
  then show ?case
    using Suc by (simp add: mod_mult2_eq)
qed

lemma le_value_bound: "le_value bs < 256 ^ length bs"
proof (induction bs)
  case Nil
  then show ?case by simp
next
  case (Cons b bs)
  have "unat b < 256" using unsigned_less [of b, where 'a=nat] by simp
  with Cons show ?case by simp
qed

lemma le_bytes_le_value: "le_bytes (length bs) (le_value bs) = bs"
proof (induction bs)
  case Nil
  then show ?case by simp
next
  case (Cons b bs)
  have b: "unat b < 256" using unsigned_less [of b, where 'a=nat] by simp
  then show ?case using Cons by simp
qed

lemma length_bytes_of_word [simp]: "length (bytes_of_word n w) = n"
  by (simp add: bytes_of_word_def)

lemma word_of_bytes_of_word:
  "LENGTH('a::len) \<le> 8 * n \<Longrightarrow> word_of_bytes (bytes_of_word n (w :: 'a word)) = w"
proof -
  assume le: "LENGTH('a) \<le> 8 * n"
  have "unat w < 2 ^ LENGTH('a)" by (rule unsigned_less)
  also have "(2::nat) ^ LENGTH('a) \<le> 2 ^ (8 * n)" using le by simp
  also have "(2::nat) ^ (8 * n) = 256 ^ n" by (simp add: power_mult)
  finally have "unat w mod 256 ^ n = unat w" by simp
  then show ?thesis
    by (simp add: word_of_bytes_def bytes_of_word_def le_value_le_bytes)
qed

lemma bytes_of_word_of_bytes:
  "8 * length bs \<le> LENGTH('a::len) \<Longrightarrow>
   bytes_of_word (length bs) (word_of_bytes bs :: 'a word) = bs"
proof -
  assume le: "8 * length bs \<le> LENGTH('a)"
  have "le_value bs < 256 ^ length bs" by (rule le_value_bound)
  also have "(256::nat) ^ length bs = 2 ^ (8 * length bs)" by (simp add: power_mult)
  also have "\<dots> \<le> 2 ^ LENGTH('a)" using le by simp
  finally have "unat (of_nat (le_value bs) :: 'a word) = le_value bs"
    by (simp add: unat_of_nat)
  then show ?thesis
    by (simp add: word_of_bytes_def bytes_of_word_def le_bytes_le_value)
qed

lemma length_bytes_of_ArrayHeader [simp]: "length (bytes_of_ArrayHeader h) = 8"
  by (simp add: bytes_of_ArrayHeader_def)

lemma ArrayHeader_of_bytes_append [simp]:
  "ArrayHeader_of_bytes (bytes_of_ArrayHeader h @ rest) = h"
  by (simp add: ArrayHeader_of_bytes_def bytes_of_ArrayHeader_def word_of_bytes_of_word)

lemma ArrayHeader_of_bytes_of [simp]:
  "ArrayHeader_of_bytes (bytes_of_ArrayHeader h) = h"
  using ArrayHeader_of_bytes_append [of h "[]"] by simp

lemma length_nvtrc01Magic [simp]: "length nvtrc01Magic = 8"
  by (simp add: nvtrc01Magic_def)

lemma le_bytes_numeral [simp]:
  "le_bytes (numeral k) v = of_nat (v mod 256) # le_bytes (pred_numeral k) (v div 256)"
proof -
  have "(numeral k :: nat) = Suc (pred_numeral k)" by (rule numeral_eq_Suc)
  then show ?thesis by (simp only: le_bytes.simps)
qed

lemma le_bytes_1 [simp]: "le_bytes 1 v = [of_nat (v mod 256)]"
  using le_bytes.simps(2) [of 0 v] by simp

lemma chunks_numeral [simp]:
  "chunks sz (numeral k) mem = take sz mem # chunks sz (pred_numeral k) (drop sz mem)"
proof -
  have "(numeral k :: nat) = Suc (pred_numeral k)" by (rule numeral_eq_Suc)
  then show ?thesis by (simp only: chunks.simps)
qed

lemma chunks_1 [simp]: "chunks sz 1 mem = [take sz mem]"
  using chunks.simps(2) [of sz 0 mem] by simp

lemma length_chunks [simp]: "length (chunks sz n mem) = n"
  by (induction n arbitrary: mem) auto

lemma chunks_concat:
  "\<forall>x\<in>set xs. length (f x) = sz \<Longrightarrow>
   chunks sz (length xs) (concat (map f xs) @ rest) = map f xs"
  by (induction xs) auto

lemma length_concat_fixed:
  "\<forall>x\<in>set xs. length (f x) = sz \<Longrightarrow> length (concat (map f xs)) = length xs * sz"
  by (induction xs) auto

lemma length_bytes_of_RecordGpuCtxSw [simp]:
  "length (bytes_of_RecordGpuCtxSw r) = 24"
  by (simp add: bytes_of_RecordGpuCtxSw_def)

lemma RecordGpuCtxSw_of_bytes_of [simp]:
  "RecordGpuCtxSw_of_bytes (bytes_of_RecordGpuCtxSw r) = r"
  by (simp add: RecordGpuCtxSw_of_bytes_def bytes_of_RecordGpuCtxSw_def word_of_bytes_of_word)

lemma length_bytes_of_DeviceDesc:
  "DeviceDesc_wf d \<Longrightarrow> length (bytes_of_DeviceDesc d) = 288"
  by (simp add: bytes_of_DeviceDesc_def DeviceDesc_wf_def)

lemma DeviceDesc_of_bytes_of:
  "DeviceDesc_wf d \<Longrightarrow> DeviceDesc_of_bytes (bytes_of_DeviceDesc d) = d"
  by (simp add: DeviceDesc_of_bytes_def bytes_of_DeviceDesc_def DeviceDesc_wf_def
      word_of_bytes_of_word)

lemma RecordGpuCtxSw_layout_ok [simp]: "layout_ok RecordGpuCtxSw_layout r"
  by (simp add: layout_ok_def RecordGpuCtxSw_layout_def sizeof_RecordGpuCtxSw_def)

lemma DeviceDesc_layout_ok: "DeviceDesc_wf d \<Longrightarrow> layout_ok DeviceDesc_layout d"
  by (simp add: layout_ok_def DeviceDesc_layout_def sizeof_DeviceDesc_def
      length_bytes_of_DeviceDesc DeviceDesc_of_bytes_of)

lemma DeviceDesc_wf_zero [simp]: "DeviceDesc_wf DeviceDesc_zero"
  by (simp add: DeviceDesc_wf_def DeviceDesc_zero_def)

section \<open>Comparing an element size with \<^verbatim>\<open>sizeof(T)\<close>\<close>

text \<open>The \<^verbatim>\<open>int32_t\<close> element size as the \<^verbatim>\<open>size_t\<close> the comparison sees: a negative
  size becomes a very large one.\<close>

lemma uint_scast_int32:
  "uint (scast (e :: int32_t) :: size_t) = (if 0 \<le> sint e then sint e else 2 ^ 64 + sint e)"
proof -
  have r: "- (2 ^ 31) \<le> sint e" "sint e < 2 ^ 31"
    using sint_ge [of e] sint_lt [of e] by simp_all
  have "uint (scast e :: size_t) = sint e mod 2 ^ LENGTH(64)"
    unfolding scast_eq by (rule uint_word_of_int)
  then have m: "uint (scast e :: size_t) = sint e mod 2 ^ 64"
    by simp
  show ?thesis
  proof (cases "0 \<le> sint e")
    case True
    then have "sint e mod 2 ^ 64 = sint e" using r by simp
    with True m show ?thesis by simp
  next
    case False
    have "sint e mod 2 ^ 64 = (sint e + 2 ^ 64) mod 2 ^ 64" by simp
    also have "\<dots> = sint e + 2 ^ 64" using r False by (intro mod_pos_pos_trivial) auto
    finally show ?thesis using False m by simp
  qed
qed

lemma uint_of_nat_size_t:
  "sz < 2 ^ 31 \<Longrightarrow> uint (of_nat sz :: size_t) = int sz"
proof -
  assume "sz < 2 ^ 31"
  then have "sz < 2 ^ 64" by simp
  then have "unat (of_nat sz :: size_t) = sz" by (simp add: unat_of_nat)
  then show ?thesis
    by (simp add: uint_nat)
qed

lemma elementSize_older:
  "0 \<le> sint (e :: int32_t) \<Longrightarrow> sint e < int sz \<Longrightarrow> sz < 2 ^ 31 \<Longrightarrow>
   (scast e :: size_t) < of_nat sz"
  by (simp add: word_less_alt uint_scast_int32 uint_of_nat_size_t)

lemma elementSize_negative:
  "sint (e :: int32_t) < 0 \<Longrightarrow> sz < 2 ^ 31 \<Longrightarrow> of_nat sz < (scast e :: size_t)"
proof -
  assume a: "sint e < 0" "sz < 2 ^ 31"
  have r: "- (2 ^ 31) \<le> sint e" using sint_ge [of e] by simp
  have "int sz < 2 ^ 31" using a(2) by simp
  then have "int sz < 2 ^ 64 + sint e" using r by simp
  then show ?thesis
    using a by (simp add: word_less_alt uint_scast_int32 uint_of_nat_size_t)
qed

section \<open>Reading: general facts\<close>

lemma ifs_read_append:
  "n = int (length a) \<Longrightarrow>
   ifs_read \<lparr>unread = a @ rest, failbit = False\<rparr> n = (\<lparr>unread = rest, failbit = False\<rparr>, a)"
  by (simp add: ifs_read_def)

text \<open>Once the eight header bytes are there, \<^verbatim>\<open>ReadVector\<close> goes on with the header they
  hold.\<close>

lemma ReadVector_header:
  "ReadVector T \<lparr>unread = bytes_of_ArrayHeader h @ rest, failbit = False\<rparr> buffer =
     (let ifs1 = \<lparr>unread = rest, failbit = False\<rparr> in
      if sint (count h) < 0 then (ThrewLengthError, ifs1, buffer)
        else
          let buffer1 = resize (nat (sint (count h))) (zero_value T) buffer in
          if (scast (elementSize h) :: size_t) = of_nat (sizeof T) then
            let (ifs2, got) = ifs_read ifs1 (sint (count h * elementSize h));
                mem = store got (concat (map (to_bytes T) buffer1));
                buffer2 = map (from_bytes T) (chunks (sizeof T) (length buffer1) mem)
            in (if failbit ifs2 then ReturnedFalse else ReturnedTrue, ifs2, buffer2)
          else if (scast (elementSize h) :: size_t) > of_nat (sizeof T) then
            let (ifs2, buffer2) = read_each T ifs1 buffer1
            in (if failbit ifs2 then ReturnedFalse else ReturnedTrue, ifs2, buffer2)
          else (ReturnedFalse, ifs1, buffer1))"
  unfolding ReadVector_def
  by (simp add: ifs_read_append Let_def)

lemma length_read_perDeviceData:
  "read_perDeviceData ifs xs = (r, ifs', ys) \<Longrightarrow> length ys = length xs"
proof (induction xs arbitrary: ifs r ifs' ys)
  case Nil
  then show ?case by simp
next
  case (Cons x xs)
  then show ?case
    by (auto split: prod.splits outcome.splits)
qed

lemma ReadVector_zero_count:
  "ReadVector DeviceDesc_layout
     \<lparr>unread = bytes_of_ArrayHeader \<lparr>count = 0, elementSize = of_nat sizeof_DeviceDesc\<rparr> @ rest,
      failbit = False\<rparr> [] = (ReturnedTrue, \<lparr>unread = rest, failbit = False\<rparr>, [])"
  by (simp add: ReadVector_header Let_def resize_def DeviceDesc_layout_def
      sizeof_DeviceDesc_def ifs_read_def store_def)

text \<open>The loop over the elements, when the stream holds enough bytes: it takes
  consecutive pieces of \<^verbatim>\<open>sizeof(T)\<close> bytes.\<close>

lemma read_each_enough:
  "\<forall>e\<in>set buffer. length (to_bytes T e) \<le> sizeof T \<Longrightarrow>
   length buffer * sizeof T \<le> length bytes \<Longrightarrow>
   read_each T \<lparr>unread = bytes, failbit = False\<rparr> buffer =
     (\<lparr>unread = drop (length buffer * sizeof T) bytes, failbit = False\<rparr>,
      map (from_bytes T) (chunks (sizeof T) (length buffer) bytes))"
proof (induction buffer arbitrary: bytes)
  case Nil
  then show ?case by simp
next
  case (Cons e es)
  from Cons.prems have len: "sizeof T \<le> length bytes"
    "length es * sizeof T \<le> length (drop (sizeof T) bytes)"
    by auto
  have r: "ifs_read \<lparr>unread = bytes, failbit = False\<rparr> (int (sizeof T)) =
      (\<lparr>unread = drop (sizeof T) bytes, failbit = False\<rparr>, take (sizeof T) bytes)"
    using len by (simp add: ifs_read_def)
  have st: "store (take (sizeof T) bytes) (to_bytes T e) = take (sizeof T) bytes"
    using Cons.prems len by (simp add: store_def)
  have ih: "read_each T \<lparr>unread = drop (sizeof T) bytes, failbit = False\<rparr> es =
     (\<lparr>unread = drop (length es * sizeof T) (drop (sizeof T) bytes), failbit = False\<rparr>,
      map (from_bytes T) (chunks (sizeof T) (length es) (drop (sizeof T) bytes)))"
    using Cons.IH [of "drop (sizeof T) bytes"] Cons.prems len by simp
  show ?case
    by (simp add: r st ih add.commute)
qed

text \<open>
  The branch \<^verbatim>\<open>header.elementSize > sizeof(T)\<close>, on a stream that holds enough bytes:
  the records are taken from consecutive pieces of \<^verbatim>\<open>sizeof(T)\<close> bytes and the stream is
  left \<^verbatim>\<open>count * sizeof(T)\<close> bytes after the header. The element size of the header
  appears nowhere in the result.
\<close>

lemma ReadVector_newer:
  assumes "0 \<le> sint (count h)" "of_nat (sizeof T) < (scast (elementSize h) :: size_t)"
    and "length (to_bytes T (zero_value T)) \<le> sizeof T"
    and "nat (sint (count h)) * sizeof T \<le> length rest"
  shows "ReadVector T \<lparr>unread = bytes_of_ArrayHeader h @ rest, failbit = False\<rparr> [] =
     (ReturnedTrue,
      \<lparr>unread = drop (nat (sint (count h)) * sizeof T) rest, failbit = False\<rparr>,
      map (from_bytes T) (chunks (sizeof T) (nat (sint (count h))) rest))"
proof -
  let ?n = "nat (sint (count h))"
  have ne: "(scast (elementSize h) :: size_t) \<noteq> of_nat (sizeof T)"
    using assms(2) by auto
  have "read_each T \<lparr>unread = rest, failbit = False\<rparr> (replicate ?n (zero_value T)) =
     (\<lparr>unread = drop (length (replicate ?n (zero_value T)) * sizeof T) rest, failbit = False\<rparr>,
      map (from_bytes T) (chunks (sizeof T) (length (replicate ?n (zero_value T))) rest))"
    by (rule read_each_enough) (use assms in auto)
  then show ?thesis
    using assms(1,2) ne by (simp add: ReadVector_header Let_def resize_def)
qed

text \<open>The branch of an element size between zero and \<^verbatim>\<open>sizeof(T)\<close>: no record is read,
  and the call does not return \<^verbatim>\<open>true\<close>.\<close>

lemma ReadVector_older:
  assumes "0 \<le> sint (elementSize h)" "sint (elementSize h) < int (sizeof T)"
    and "sizeof T < 2 ^ 31"
  shows "ReadVector T \<lparr>unread = bytes_of_ArrayHeader h @ rest, failbit = False\<rparr> buffer =
    (if sint (count h) < 0 then (ThrewLengthError, \<lparr>unread = rest, failbit = False\<rparr>, buffer)
     else (ReturnedFalse, \<lparr>unread = rest, failbit = False\<rparr>,
           resize (nat (sint (count h))) (zero_value T) buffer))"
proof -
  have lt: "(scast (elementSize h) :: size_t) < of_nat (sizeof T)"
    using assms by (rule elementSize_older)
  then have "(scast (elementSize h) :: size_t) \<noteq> of_nat (sizeof T)"
    "\<not> of_nat (sizeof T) < (scast (elementSize h) :: size_t)" by auto
  then show ?thesis
    by (simp add: ReadVector_header Let_def)
qed

text \<open>A negative element size is compared as a huge unsigned one and takes the branch of
  the larger element sizes.\<close>

lemma ReadVector_negative_elementSize:
  assumes "sint (elementSize h) < 0" "0 \<le> sint (count h)" "sizeof T < 2 ^ 31"
    and "length (to_bytes T (zero_value T)) \<le> sizeof T"
    and "nat (sint (count h)) * sizeof T \<le> length rest"
  shows "ReadVector T \<lparr>unread = bytes_of_ArrayHeader h @ rest, failbit = False\<rparr> [] =
     (ReturnedTrue,
      \<lparr>unread = drop (nat (sint (count h)) * sizeof T) rest, failbit = False\<rparr>,
      map (from_bytes T) (chunks (sizeof T) (nat (sint (count h))) rest))"
  using assms(2) elementSize_negative [OF assms(1,3)] assms(4,5) by (rule ReadVector_newer)

text \<open>A byte count that wraps to a negative number makes the read fail.\<close>

lemma ReadVector_negative_byte_count:
  assumes "0 \<le> sint (count h)"
    and "(scast (elementSize h) :: size_t) = of_nat (sizeof T)"
    and "sint (count h * elementSize h) < 0"
  shows "fst (ReadVector T \<lparr>unread = bytes_of_ArrayHeader h @ rest, failbit = False\<rparr> buffer)
    = ReturnedFalse"
  using assms by (simp add: ReadVector_header Let_def ifs_read_def)

lemma read_perDeviceData_first_fails:
  "fst (ReadVector RecordGpuCtxSw_layout ifs deviceData) = ReturnedFalse \<Longrightarrow>
   fst (read_perDeviceData ifs (deviceData # rest)) = ReturnedFalse"
  by (cases "ReadVector RecordGpuCtxSw_layout ifs deviceData") auto

section \<open>Arrays written with a larger element size\<close>

text \<open>
  Claim C1 says that, when the element size on disk is larger than \<^verbatim>\<open>sizeof(T)\<close>,
  \<^verbatim>\<open>ReadVector\<close> reads \<^verbatim>\<open>sizeof(T)\<close> bytes of each record and then moves on by the whole
  element size on disk, so that the trailing bytes of a record are skipped. The code reads
  \<^verbatim>\<open>sizeof(T)\<close> bytes per element and skips nothing. Here an array of two records was
  written with element size 32: each 24-byte record is followed by eight bytes \<^verbatim>\<open>0xFF\<close>.
  The first record is read as written. The second one is read from the eight trailing
  bytes of the first and the first sixteen bytes of the second on disk, and sixteen bytes
  of the array are left in the stream, where the next header will be looked for.
\<close>

theorem ReadVector_larger_elementSize_not_skipped:
  "ReadVector RecordGpuCtxSw_layout
     \<lparr>unread = bytes_of_ArrayHeader \<lparr>count = 2, elementSize = 32\<rparr>
         @ bytes_of_RecordGpuCtxSw
             \<lparr>category = 1, type = 1, processId = 100, timestamp = 1000, contextHandle = 7\<rparr>
         @ [0xFF, 0xFF, 0xFF, 0xFF, 0xFF, 0xFF, 0xFF, 0xFF]
         @ bytes_of_RecordGpuCtxSw
             \<lparr>category = 1, type = 2, processId = 100, timestamp = 2000, contextHandle = 7\<rparr>
         @ [0xFF, 0xFF, 0xFF, 0xFF, 0xFF, 0xFF, 0xFF, 0xFF],
       failbit = False\<rparr> []
   = (ReturnedTrue,
      \<lparr>unread = [7, 0, 0, 0, 0, 0, 0, 0, 0xFF, 0xFF, 0xFF, 0xFF, 0xFF, 0xFF, 0xFF, 0xFF],
       failbit = False\<rparr>,
      [\<lparr>category = 1, type = 1, processId = 100, timestamp = 1000, contextHandle = 7\<rparr>,
       \<lparr>category = 0xFFFF, type = 0xFFFF, processId = 0xFFFFFFFF,
        timestamp = 0x6400020001, contextHandle = 2000\<rparr>])"
  apply (subst ReadVector_newer)
      apply (simp_all add: RecordGpuCtxSw_layout_def sizeof_RecordGpuCtxSw_def
      RecordGpuCtxSw_zero_def)
  apply (simp add: bytes_of_RecordGpuCtxSw_def bytes_of_word_def RecordGpuCtxSw_of_bytes_def
      word_of_bytes_def)
  done

section \<open>Arrays written with a smaller element size\<close>

text \<open>
  Claim C5 says that \<^verbatim>\<open>ReadVector\<close> fails whenever the element size on disk is smaller
  than \<^verbatim>\<open>sizeof(T)\<close>. For sizes from zero up to \<^verbatim>\<open>sizeof(T) - 1\<close> it does
  (\<open>ReadVector_older\<close>). The element size is an \<^verbatim>\<open>int32_t\<close>, though, and the code compares
  it with a \<^verbatim>\<open>size_t\<close>: a negative element size, which is smaller than \<^verbatim>\<open>sizeof(T)\<close>,
  is converted to a huge unsigned number and taken for the size of a newer format
  (\<open>ReadVector_negative_elementSize\<close>). Here the header says one record of size \<open>-1\<close>; the
  call returns \<^verbatim>\<open>true\<close> with one record.
\<close>

theorem ReadVector_negative_elementSize_accepted:
  "sint (elementSize \<lparr>count = 1, elementSize = - 1\<rparr>) < int (sizeof RecordGpuCtxSw_layout) \<and>
   ReadVector RecordGpuCtxSw_layout
     \<lparr>unread = bytes_of_ArrayHeader \<lparr>count = 1, elementSize = - 1\<rparr>
         @ bytes_of_RecordGpuCtxSw
             \<lparr>category = 1, type = 1, processId = 100, timestamp = 1000, contextHandle = 7\<rparr>,
       failbit = False\<rparr> []
   = (ReturnedTrue, \<lparr>unread = [], failbit = False\<rparr>,
      [\<lparr>category = 1, type = 1, processId = 100, timestamp = 1000, contextHandle = 7\<rparr>])"
  apply (subst ReadVector_newer)
      apply (simp_all add: RecordGpuCtxSw_layout_def sizeof_RecordGpuCtxSw_def
      RecordGpuCtxSw_zero_def)
  done

section \<open>Magic rejection\<close>

text \<open>
  Claim C6. A stream whose first eight bytes are not the magic tag \<^verbatim>\<open>"nvtrc01\0"\<close> makes
  \<^verbatim>\<open>ReadFileData\<close> return \<^verbatim>\<open>false\<close>, whatever follows those bytes: the result does not
  depend on the bytes after the tag, \<^verbatim>\<open>fileData\<close> is still empty, and the stream has
  only had the (at most eight) bytes of the tag taken from it, so nothing was read after the
  mismatch. The code has one kind of failure, the returned \<^verbatim>\<open>false\<close>; here it is the
  \<^verbatim>\<open>return false\<close> of the magic comparison, or the one of the short read before it when
  the stream has fewer than eight bytes.
\<close>

theorem ReadFileData_bad_magic:
  "take 8 bs \<noteq> nvtrc01Magic \<Longrightarrow>
   ReadFileData (Some bs) =
     (ReturnedFalse, FileData_empty, \<lparr>unread = drop 8 bs, failbit = (length bs < 8)\<rparr>)"
  by (simp add: ReadFileData_def ifstream_open_def ifs_read_def)

theorem ReadFileData_bad_magic_witness:
  "take 8 ([0x6E, 0x76, 0x74, 0x72, 0x63, 0x30, 0x32, 0x00, 0, 0, 0, 0, 0x20, 1, 0, 0] :: byte list)
     \<noteq> nvtrc01Magic \<and>
   ReadFileData (Some [0x6E, 0x76, 0x74, 0x72, 0x63, 0x30, 0x32, 0x00, 0, 0, 0, 0, 0x20, 1, 0, 0]) =
     (ReturnedFalse, FileData_empty, \<lparr>unread = [0, 0, 0, 0, 0x20, 1, 0, 0], failbit = False\<rparr>)"
  using ReadFileData_bad_magic
    [of "[0x6E, 0x76, 0x74, 0x72, 0x63, 0x30, 0x32, 0x00, 0, 0, 0, 0, 0x20, 1, 0, 0]"]
  by (simp add: nvtrc01Magic_def)

section \<open>The two lists of a decoded capture\<close>

text \<open>
  Claim C8. Whenever \<^verbatim>\<open>ReadFileData\<close> returns \<^verbatim>\<open>true\<close>, \<^verbatim>\<open>perDeviceData\<close> has as many
  entries as \<^verbatim>\<open>deviceDescs\<close>. A stream that holds the magic tag and then a
  device-descriptor array of count zero (with the element size the writer records,
  \<^verbatim>\<open>sizeof(DeviceDesc)\<close>) is decoded with success, and both lists are empty; bytes after
  the array header are left unread.
\<close>

theorem ReadFileData_lengths:
  "(ReadFileData inputFile = (ReturnedTrue, fileData, ifs) \<longrightarrow>
      length (perDeviceData fileData) = length (deviceDescs fileData)) \<and>
   ReadFileData (Some (nvtrc01Magic @
       bytes_of_ArrayHeader \<lparr>count = 0, elementSize = of_nat sizeof_DeviceDesc\<rparr> @ rest)) =
     (ReturnedTrue, FileData_empty, \<lparr>unread = rest, failbit = False\<rparr>)"
proof
  show "ReadFileData inputFile = (ReturnedTrue, fileData, ifs) \<longrightarrow>
      length (perDeviceData fileData) = length (deviceDescs fileData)"
    by (auto simp: ReadFileData_def Let_def resize_def FileData_empty_def
        split: prod.splits outcome.splits if_splits dest: length_read_perDeviceData)
  show "ReadFileData (Some (nvtrc01Magic @
       bytes_of_ArrayHeader \<lparr>count = 0, elementSize = of_nat sizeof_DeviceDesc\<rparr> @ rest)) =
     (ReturnedTrue, FileData_empty, \<lparr>unread = rest, failbit = False\<rparr>)"
    unfolding ReadFileData_def ifstream_open_def
    by (simp add: ifs_read_append ReadVector_zero_count FileData_empty_def resize_def)
qed

theorem ReadFileData_lengths_witness:
  "ReadFileData (Some (nvtrc01Magic @
       bytes_of_ArrayHeader \<lparr>count = 0, elementSize = of_nat sizeof_DeviceDesc\<rparr> @ [])) =
     (ReturnedTrue, FileData_empty, \<lparr>unread = [], failbit = False\<rparr>) \<and>
   length (perDeviceData FileData_empty) = length (deviceDescs FileData_empty)"
  using ReadFileData_lengths
    [of "Some (nvtrc01Magic @
       bytes_of_ArrayHeader \<lparr>count = 0, elementSize = of_nat sizeof_DeviceDesc\<rparr> @ [])"
     FileData_empty "\<lparr>unread = [], failbit = False\<rparr>" "[]"]
  by simp

section \<open>Writing and reading back\<close>

lemma sint_of_nat_int32: "n < 2 ^ 31 \<Longrightarrow> sint (of_nat n :: int32_t) = int n"
proof -
  assume n: "n < 2 ^ 31"
  have "sint (of_nat n :: int32_t) = signed_take_bit (LENGTH(32) - Suc 0) (int n)"
    using signed_of_nat [of n, where 'a = int and 'b = 32] by simp
  also have "\<dots> = signed_take_bit 31 (int n)" by simp
  also have "\<dots> = int n"
    using n by (simp add: signed_take_bit_int_eq_self)
  finally show ?thesis .
qed

lemma scast_of_nat_int32:
  "n < 2 ^ 31 \<Longrightarrow> (scast (of_nat n :: int32_t) :: size_t) = of_nat n"
proof -
  assume n: "n < 2 ^ 31"
  have "(scast (of_nat n :: int32_t) :: size_t) = word_of_int (sint (of_nat n :: int32_t))"
    by (rule scast_eq)
  also have "\<dots> = word_of_int (int n)" using n by (simp only: sint_of_nat_int32)
  also have "\<dots> = of_nat n" by simp
  finally show ?thesis .
qed

lemma ReadVector_written:
  assumes sz: "0 < sizeof T" "sizeof T < 2 ^ 31" "length xs * sizeof T < 2 ^ 31"
    and ok: "\<forall>x\<in>set xs. layout_ok T x"
  shows "ReadVector T \<lparr>unread = vector_image T xs @ rest, failbit = False\<rparr> [] =
     (ReturnedTrue, \<lparr>unread = rest, failbit = False\<rparr>, xs)"
proof -
  let ?n = "length xs"
  let ?h = "\<lparr>count = of_nat ?n, elementSize = of_nat (sizeof T)\<rparr> :: ArrayHeader"
  let ?data = "concat (map (to_bytes T) xs)"
  have "1 \<le> sizeof T" using sz(1) by simp
  then have "?n * 1 \<le> ?n * sizeof T" by (rule mult_le_mono2)
  then have "?n \<le> ?n * sizeof T" by (simp only: mult_1_right)
  then have n: "?n < 2 ^ 31" using sz(3) by (rule le_less_trans)
  have len: "\<forall>x\<in>set xs. length (to_bytes T x) = sizeof T"
    and inv: "\<forall>x\<in>set xs. from_bytes T (to_bytes T x) = x"
    using ok by (simp_all add: layout_ok_def)
  have dl: "length ?data = ?n * sizeof T"
    using len by (rule length_concat_fixed)
  have cnt: "sint (count ?h) = int ?n" using n by (simp add: sint_of_nat_int32)
  have es: "(scast (elementSize ?h) :: size_t) = of_nat (sizeof T)"
    using sz(2) by (simp add: scast_of_nat_int32)
  have "count ?h * elementSize ?h = of_nat (?n * sizeof T)" by simp
  then have prod: "sint (count ?h * elementSize ?h) = int (length ?data)"
    using sz(3) dl by (simp only: sint_of_nat_int32)
  have rd: "ifs_read \<lparr>unread = ?data @ rest, failbit = False\<rparr> (sint (count ?h * elementSize ?h))
     = (\<lparr>unread = rest, failbit = False\<rparr>, ?data)"
    using prod by (rule ifs_read_append)
  have ch: "chunks (sizeof T) ?n (store ?data mem) = map (to_bytes T) xs" for mem
    unfolding store_def using len by (rule chunks_concat)
  have fb: "map (from_bytes T \<circ> to_bytes T) xs = xs"
    using inv by (simp add: map_idI)
  have "ReadVector T \<lparr>unread = bytes_of_ArrayHeader ?h @ ?data @ rest, failbit = False\<rparr> [] =
     (ReturnedTrue, \<lparr>unread = rest, failbit = False\<rparr>, xs)"
    unfolding ReadVector_header Let_def
    by (simp add: cnt es rd ch fb resize_def del: ArrayHeader.simps)
  then show ?thesis by (simp add: vector_image_def)
qed


lemma WriteVector_image:
  assumes sz: "0 < sizeof T" "sizeof T < 2 ^ 31" "length xs * sizeof T < 2 ^ 31"
    and len: "\<forall>x\<in>set xs. length (to_bytes T x) = sizeof T"
    and good: "\<not> badbit ofs"
  shows "WriteVector T ofs xs = ofs\<lparr>written := written ofs @ vector_image T xs\<rparr>"
proof -
  let ?n = "length xs"
  let ?data = "concat (map (to_bytes T) xs)"
  have dl: "length ?data = ?n * sizeof T"
    using len by (rule length_concat_fixed)
  have "(of_nat ?n :: int32_t) * of_nat (sizeof T) = of_nat (?n * sizeof T)" by simp
  then have prod: "sint ((of_nat ?n :: int32_t) * of_nat (sizeof T)) = int (length ?data)"
    using sz(3) dl by (simp only: sint_of_nat_int32)
  show ?thesis
    using good by (simp add: WriteVector_def ofs_write_def Let_def prod vector_image_def)
qed

lemma write_perDeviceData_image:
  "\<forall>xs\<in>set xss. length xs * sizeof_RecordGpuCtxSw < 2 ^ 31 \<Longrightarrow> \<not> badbit ofs \<Longrightarrow>
   write_perDeviceData ofs xss =
     ofs\<lparr>written := written ofs @ concat (map (vector_image RecordGpuCtxSw_layout) xss)\<rparr>"
proof (induction xss arbitrary: ofs)
  case Nil
  then show ?case by simp
next
  case (Cons xs xss)
  have w: "WriteVector RecordGpuCtxSw_layout ofs xs =
      ofs\<lparr>written := written ofs @ vector_image RecordGpuCtxSw_layout xs\<rparr>"
    using Cons.prems
    by (intro WriteVector_image)
      (simp_all add: RecordGpuCtxSw_layout_def sizeof_RecordGpuCtxSw_def)
  show ?case
    using Cons.prems by (simp add: w Cons.IH)
qed

lemma read_perDeviceData_image:
  "\<forall>xs\<in>set xss. length xs * sizeof_RecordGpuCtxSw < 2 ^ 31 \<Longrightarrow>
   read_perDeviceData
     \<lparr>unread = concat (map (vector_image RecordGpuCtxSw_layout) xss) @ rest, failbit = False\<rparr>
     (replicate (length xss) []) = (ReturnedTrue, \<lparr>unread = rest, failbit = False\<rparr>, xss)"
proof (induction xss)
  case Nil
  then show ?case by simp
next
  case (Cons xs xss)
  have r: "ReadVector RecordGpuCtxSw_layout
      \<lparr>unread = vector_image RecordGpuCtxSw_layout xs
         @ (concat (map (vector_image RecordGpuCtxSw_layout) xss) @ rest), failbit = False\<rparr> [] =
     (ReturnedTrue,
      \<lparr>unread = concat (map (vector_image RecordGpuCtxSw_layout) xss) @ rest, failbit = False\<rparr>,
      xs)"
    using Cons.prems
    by (intro ReadVector_written)
      (simp_all add: RecordGpuCtxSw_layout_def sizeof_RecordGpuCtxSw_def layout_ok_def)
  show ?case
    using Cons.prems by (simp add: r Cons.IH)
qed

lemma WriteFileData_image:
  assumes wf: "\<forall>d\<in>set (deviceDescs fd). DeviceDesc_wf d"
    and dsz: "length (deviceDescs fd) * sizeof_DeviceDesc < 2 ^ 31"
    and rsz: "\<forall>recs\<in>set (perDeviceData fd). length recs * sizeof_RecordGpuCtxSw < 2 ^ 31"
  shows "WriteFileData True fd =
     (True, Some (nvtrc01Magic @ vector_image DeviceDesc_layout (deviceDescs fd)
        @ concat (map (vector_image RecordGpuCtxSw_layout) (perDeviceData fd))))"
proof -
  let ?ofs1 = "\<lparr>written = nvtrc01Magic, badbit = False\<rparr>"
  have m: "ofs_write \<lparr>written = [], badbit = False\<rparr> nvtrc01Magic 8 = ?ofs1"
    by (simp add: ofs_write_def)
  have d: "WriteVector DeviceDesc_layout ?ofs1 (deviceDescs fd) =
      ?ofs1\<lparr>written := written ?ofs1 @ vector_image DeviceDesc_layout (deviceDescs fd)\<rparr>"
    using wf dsz
    by (intro WriteVector_image)
      (simp_all add: DeviceDesc_layout_def sizeof_DeviceDesc_def length_bytes_of_DeviceDesc)
  show ?thesis
    using rsz by (simp add: WriteFileData_def Let_def m d write_perDeviceData_image)
qed

lemma ReadFileData_image:
  assumes eq: "length (perDeviceData fd) = length (deviceDescs fd)"
    and wf: "\<forall>d\<in>set (deviceDescs fd). DeviceDesc_wf d"
    and dsz: "length (deviceDescs fd) * sizeof_DeviceDesc < 2 ^ 31"
    and rsz: "\<forall>recs\<in>set (perDeviceData fd). length recs * sizeof_RecordGpuCtxSw < 2 ^ 31"
  shows "ReadFileData (Some (nvtrc01Magic @ vector_image DeviceDesc_layout (deviceDescs fd)
        @ concat (map (vector_image RecordGpuCtxSw_layout) (perDeviceData fd)) @ rest)) =
     (ReturnedTrue, fd, \<lparr>unread = rest, failbit = False\<rparr>)"
proof -
  let ?tail = "concat (map (vector_image RecordGpuCtxSw_layout) (perDeviceData fd)) @ rest"
  have d: "ReadVector DeviceDesc_layout
      \<lparr>unread = vector_image DeviceDesc_layout (deviceDescs fd) @ ?tail, failbit = False\<rparr> [] =
      (ReturnedTrue, \<lparr>unread = ?tail, failbit = False\<rparr>, deviceDescs fd)"
    using wf dsz
    by (intro ReadVector_written)
      (simp_all add: DeviceDesc_layout_ok, simp_all add: DeviceDesc_layout_def sizeof_DeviceDesc_def)
  have p: "read_perDeviceData \<lparr>unread = ?tail, failbit = False\<rparr>
      (replicate (length (deviceDescs fd)) []) =
      (ReturnedTrue, \<lparr>unread = rest, failbit = False\<rparr>, perDeviceData fd)"
    using read_perDeviceData_image [OF rsz, of rest] eq by simp
  show ?thesis
    unfolding ReadFileData_def ifstream_open_def
    by (simp add: ifs_read_append d p FileData_empty_def resize_def)
qed

text \<open>
  While every byte count \<^verbatim>\<open>header.count * header.elementSize\<close> fits an \<^verbatim>\<open>int32_t\<close>, a
  \<^verbatim>\<open>FileData\<close> with one record array per descriptor is written and read back unchanged:
  \<^verbatim>\<open>WriteFileData\<close> returns \<^verbatim>\<open>true\<close> and \<^verbatim>\<open>ReadFileData\<close> of the file returns
  \<^verbatim>\<open>true\<close> with the same \<^verbatim>\<open>FileData\<close>, having read the file to its end.
  (\<open>DeviceDesc_wf\<close> says that the two arrays of a descriptor have their 16 and 239 bytes;
  the content of the name buffer is free.)
\<close>

lemma WriteFileData_ReadFileData_small:
  assumes "length (perDeviceData fd) = length (deviceDescs fd)"
    and "\<forall>d\<in>set (deviceDescs fd). DeviceDesc_wf d"
    and "length (deviceDescs fd) * sizeof_DeviceDesc < 2 ^ 31"
    and "\<forall>recs\<in>set (perDeviceData fd). length recs * sizeof_RecordGpuCtxSw < 2 ^ 31"
  shows "fst (WriteFileData True fd) \<and>
    ReadFileData (snd (WriteFileData True fd)) =
      (ReturnedTrue, fd, \<lparr>unread = [], failbit = False\<rparr>)"
  using ReadFileData_image [OF assms, of "[]"] WriteFileData_image [OF assms(2-4)]
  by simp

text \<open>
  When the byte count does not fit, the product wraps. For 178956971 records it wraps to
  8: \<^verbatim>\<open>WriteFileData\<close> writes eight bytes of the records and returns \<^verbatim>\<open>true\<close>.
\<close>

lemma WriteFileData_byte_count_wraps_positive:
  "WriteFileData True
     \<lparr>deviceDescs = [DeviceDesc_zero],
      perDeviceData = [replicate 178956971 RecordGpuCtxSw_zero]\<rparr> =
   (True, Some (nvtrc01Magic
      @ bytes_of_ArrayHeader \<lparr>count = 1, elementSize = 288\<rparr> @ bytes_of_DeviceDesc DeviceDesc_zero
      @ bytes_of_ArrayHeader \<lparr>count = 178956971, elementSize = 24\<rparr>
      @ [0, 0, 0, 0, 0, 0, 0, 0]))"
proof -
  let ?ofs1 = "\<lparr>written = nvtrc01Magic, badbit = False\<rparr>"
  have m: "ofs_write \<lparr>written = [], badbit = False\<rparr> nvtrc01Magic 8 = ?ofs1"
    by (simp add: ofs_write_def)
  have d: "WriteVector DeviceDesc_layout ?ofs1 [DeviceDesc_zero] =
      ?ofs1\<lparr>written := written ?ofs1 @ vector_image DeviceDesc_layout [DeviceDesc_zero]\<rparr>"
    by (intro WriteVector_image)
      (simp_all add: DeviceDesc_layout_def sizeof_DeviceDesc_def length_bytes_of_DeviceDesc)
  have s: "sint (178956971 * 24 :: int32_t) = 8" by simp
  have z: "take 8 (bytes_of_RecordGpuCtxSw RecordGpuCtxSw_zero) = [0, 0, 0, 0, 0, 0, 0, 0]"
    by (simp add: bytes_of_RecordGpuCtxSw_def bytes_of_word_def RecordGpuCtxSw_zero_def)
  have r: "replicate 178956971 (bytes_of_RecordGpuCtxSw RecordGpuCtxSw_zero) =
      bytes_of_RecordGpuCtxSw RecordGpuCtxSw_zero
        # replicate 178956970 (bytes_of_RecordGpuCtxSw RecordGpuCtxSw_zero)"
    using replicate_Suc [of 178956970 "bytes_of_RecordGpuCtxSw RecordGpuCtxSw_zero"] by simp
  have t: "take 8 (concat (replicate 178956971
      (bytes_of_RecordGpuCtxSw RecordGpuCtxSw_zero))) = [0, 0, 0, 0, 0, 0, 0, 0]"
    by (subst r) (simp add: z)
  have w2: "WriteVector RecordGpuCtxSw_layout \<lparr>written = bs, badbit = False\<rparr>
      (replicate 178956971 RecordGpuCtxSw_zero) =
      \<lparr>written = bs @ bytes_of_ArrayHeader \<lparr>count = 178956971, elementSize = 24\<rparr>
         @ [0, 0, 0, 0, 0, 0, 0, 0], badbit = False\<rparr>" for bs
    by (simp add: WriteVector_def Let_def ofs_write_def s
        RecordGpuCtxSw_layout_def sizeof_RecordGpuCtxSw_def)
      (simp only: t)
  have d': "WriteVector DeviceDesc_layout ?ofs1 [DeviceDesc_zero] =
      \<lparr>written = nvtrc01Magic @ bytes_of_ArrayHeader \<lparr>count = 1, elementSize = 288\<rparr>
         @ bytes_of_DeviceDesc DeviceDesc_zero, badbit = False\<rparr>"
    unfolding d by (simp add: vector_image_def DeviceDesc_layout_def sizeof_DeviceDesc_def)
  show ?thesis
    by (simp add: WriteFileData_def Let_def m d' w2)
qed

text \<open>
  Claim C3 says that every \<^verbatim>\<open>FileData\<close> whose names fit their buffer and whose array
  lengths fit a signed 32-bit count is written by \<^verbatim>\<open>WriteFileData\<close> and read back by
  \<^verbatim>\<open>ReadFileData\<close> with success and unchanged. The code does not do that for one device
  with 89478486 records: the length fits an \<^verbatim>\<open>int32_t\<close> and the name is empty, but the
  byte count 89478486 * 24, computed in \<^verbatim>\<open>int32_t\<close>, overflows and wraps to a negative
  stream size; \<^verbatim>\<open>ofs.write\<close> writes nothing and sets the bad bit, and
  \<^verbatim>\<open>WriteFileData\<close> returns \<^verbatim>\<open>false\<close>, leaving a file that ends after the array
  header. \<^verbatim>\<open>ReadFileData\<close> of that file returns \<^verbatim>\<open>false\<close> as well.
\<close>

theorem WriteFileData_byte_count_overflow:
  "WriteFileData True
     \<lparr>deviceDescs = [DeviceDesc_zero],
      perDeviceData = [replicate 89478486 RecordGpuCtxSw_zero]\<rparr> =
   (False, Some (nvtrc01Magic
      @ bytes_of_ArrayHeader \<lparr>count = 1, elementSize = 288\<rparr> @ bytes_of_DeviceDesc DeviceDesc_zero
      @ bytes_of_ArrayHeader \<lparr>count = 89478486, elementSize = 24\<rparr>)) \<and>
   fst (ReadFileData (Some (nvtrc01Magic
      @ bytes_of_ArrayHeader \<lparr>count = 1, elementSize = 288\<rparr> @ bytes_of_DeviceDesc DeviceDesc_zero
      @ bytes_of_ArrayHeader \<lparr>count = 89478486, elementSize = 24\<rparr>))) = ReturnedFalse"
proof
  let ?ofs1 = "\<lparr>written = nvtrc01Magic, badbit = False\<rparr>"
  have m: "ofs_write \<lparr>written = [], badbit = False\<rparr> nvtrc01Magic 8 = ?ofs1"
    by (simp add: ofs_write_def)
  have d: "WriteVector DeviceDesc_layout ?ofs1 [DeviceDesc_zero] =
      ?ofs1\<lparr>written := written ?ofs1 @ vector_image DeviceDesc_layout [DeviceDesc_zero]\<rparr>"
    by (intro WriteVector_image)
      (simp_all add: DeviceDesc_layout_def sizeof_DeviceDesc_def length_bytes_of_DeviceDesc)
  have s: "sint (89478486 * 24 :: int32_t) < 0" by simp
  show "WriteFileData True
     \<lparr>deviceDescs = [DeviceDesc_zero],
      perDeviceData = [replicate 89478486 RecordGpuCtxSw_zero]\<rparr> =
   (False, Some (nvtrc01Magic
      @ bytes_of_ArrayHeader \<lparr>count = 1, elementSize = 288\<rparr> @ bytes_of_DeviceDesc DeviceDesc_zero
      @ bytes_of_ArrayHeader \<lparr>count = 89478486, elementSize = 24\<rparr>))"
    by (simp add: WriteFileData_def Let_def m d WriteVector_def ofs_write_def s vector_image_def
        RecordGpuCtxSw_layout_def sizeof_RecordGpuCtxSw_def DeviceDesc_layout_def
        sizeof_DeviceDesc_def length_bytes_of_DeviceDesc)
next
  let ?tail = "bytes_of_ArrayHeader \<lparr>count = 89478486, elementSize = 24\<rparr> @ []"
  have v: "bytes_of_ArrayHeader \<lparr>count = 1, elementSize = 288\<rparr> @ bytes_of_DeviceDesc DeviceDesc_zero
      @ bytes_of_ArrayHeader \<lparr>count = 89478486, elementSize = 24\<rparr>
      = vector_image DeviceDesc_layout [DeviceDesc_zero] @ ?tail"
    by (simp add: vector_image_def DeviceDesc_layout_def sizeof_DeviceDesc_def)
  have d: "ReadVector DeviceDesc_layout
      \<lparr>unread = vector_image DeviceDesc_layout [DeviceDesc_zero] @ ?tail, failbit = False\<rparr> [] =
      (ReturnedTrue, \<lparr>unread = ?tail, failbit = False\<rparr>, [DeviceDesc_zero])"
    by (intro ReadVector_written)
      (simp_all add: DeviceDesc_layout_ok, simp_all add: DeviceDesc_layout_def sizeof_DeviceDesc_def)
  have "fst (ReadVector RecordGpuCtxSw_layout \<lparr>unread = ?tail, failbit = False\<rparr> []) = ReturnedFalse"
    by (rule ReadVector_negative_byte_count)
      (simp_all add: RecordGpuCtxSw_layout_def sizeof_RecordGpuCtxSw_def)
  then have p: "fst (read_perDeviceData \<lparr>unread = ?tail, failbit = False\<rparr> [[]]) = ReturnedFalse"
    by (rule read_perDeviceData_first_fails)
  show "fst (ReadFileData (Some (nvtrc01Magic
      @ bytes_of_ArrayHeader \<lparr>count = 1, elementSize = 288\<rparr> @ bytes_of_DeviceDesc DeviceDesc_zero
      @ bytes_of_ArrayHeader \<lparr>count = 89478486, elementSize = 24\<rparr>))) = ReturnedFalse"
    unfolding ReadFileData_def ifstream_open_def
    using p
    by (simp add: ifs_read_append v d FileData_empty_def resize_def split_def
        del: append_Nil2 read_perDeviceData.simps)
qed

section \<open>What a failed decode leaves in the out-parameter\<close>








section \<open>The timestamp converter: rounding and truncation\<close>

text \<open>A number with a significand of at most 53 bits is a \<^verbatim>\<open>double\<close>: rounding leaves it
  as it is.\<close>

lemma round_half_even_of_int [simp]: "round_half_even (of_int z) = z"
  by (simp add: round_half_even_def)

lemma to_double_0 [simp]: "to_double 0 = 0"
  by (simp add: to_double_def)

lemma to_double_exact:
  assumes m: "m \<noteq> 0" "\<bar>m\<bar> < 2 ^ 53"
  shows "to_double (of_int m * 2 powr of_int k) = of_int m * 2 powr of_int k"
proof -
  let ?x = "of_int m * 2 powr of_int k :: real"
  let ?L = "\<lfloor>log 2 \<bar>?x\<bar>\<rfloor>"
  have ax: "\<bar>?x\<bar> = of_int \<bar>m\<bar> * 2 powr of_int k"
    by (simp add: abs_mult)
  have x0: "?x \<noteq> 0" using m(1) by simp
  then have pos: "0 < \<bar>?x\<bar>" by simp
  have "real_of_int \<bar>m\<bar> < real_of_int (2 ^ 53)"
    using m(2) by (simp only: of_int_less_iff)
  then have "real_of_int \<bar>m\<bar> < 2 ^ 53" by simp
  then have "of_int \<bar>m\<bar> * 2 powr real_of_int k < 2 ^ 53 * 2 powr real_of_int k"
    by (intro mult_strict_right_mono) simp_all
  also have "\<dots> = 2 powr (of_int (k + 53))"
    by (simp add: powr_add)
  finally have hi: "\<bar>?x\<bar> < 2 powr (of_int (k + 53))" using ax by simp
  have L2: "?L < k + 53"
    using hi pos by (simp only: floor_less_iff log_less_iff)
  define e where "e = ?L - 52"
  define n where "n = nat (k - e)"
  have ke: "k = e + int n" using L2 by (simp add: e_def n_def)
  have pk: "2 powr real_of_int k = 2 powr of_int e * 2 ^ n"
    by (simp add: ke powr_add powr_realpow)
  have pe: "(2::real) powr of_int e \<noteq> 0" by simp
  have q: "?x / 2 powr of_int e = of_int (m * 2 ^ n)"
    using pe by (simp add: pk)
  have "to_double ?x = of_int (round_half_even (?x / 2 powr of_int e)) * 2 powr of_int e"
    using x0 by (simp add: to_double_def e_def Let_def)
  also have "\<dots> = of_int (m * 2 ^ n) * 2 powr of_int e"
    by (simp only: q round_half_even_of_int)
  also have "\<dots> = ?x" by (simp add: pk)
  finally show ?thesis .
qed

lemma to_double_of_int:
  "\<bar>m\<bar> < 2 ^ 53 \<Longrightarrow> to_double (of_int m) = of_int m"
proof (cases "m = 0")
  case True
  then show ?thesis by simp
next
  case False
  assume "\<bar>m\<bar> < 2 ^ 53"
  with False show ?thesis using to_double_exact [of m 0] by simp
qed


lemma to_double_three_quarters: "to_double (3 / 4) = 3 / 4"
proof -
  have "(2::real) powr of_int (- 2) = 1 / 4"
    by (simp add: powr_minus divide_simps)
  then have e: "of_int 3 * 2 powr of_int (- 2) = (3 / 4 :: real)"
    by simp
  have "to_double (of_int 3 * 2 powr of_int (- 2)) = of_int 3 * 2 powr of_int (- 2)"
    by (rule to_double_exact) simp_all
  then show ?thesis by (simp only: e)
qed

lemma double_of_int64_small:
  "\<bar>sint w\<bar> < 2 ^ 53 \<Longrightarrow> double_of_int64 w = of_int (sint w)"
  unfolding double_of_int64_def by (rule to_double_of_int)

lemma double_of_int64_0 [simp]: "double_of_int64 0 = 0"
  by (simp add: double_of_int64_def)

lemma converter_three_quarters:
  "CreateTimestampConverter 0 4 0 3 = \<lparr>dstAtSyncPoint = 3, srcAtSyncPoint = 4, scale = 3 / 4\<rparr>"
proof -
  have "double_of_int64 4 = 4" "double_of_int64 3 = 3"
    using double_of_int64_small [of 4] double_of_int64_small [of 3] by simp_all
  then show ?thesis
    by (simp add: CreateTimestampConverter_def to_double_three_quarters)
qed

lemma call_three_quarters: "TimestampConverter_call (CreateTimestampConverter 0 4 0 3) 5 = Some 3"
proof -
  have "double_of_int64 1 = 1"
    using double_of_int64_small [of 1] by simp
  then show ?thesis
    by (simp add: converter_three_quarters TimestampConverter_call_def to_double_three_quarters
        int64_of_double_def trunc_to_zero_def Let_def)
qed

text \<open>
  Claim C7. A converter built with \<^verbatim>\<open>srcStart\<close> equal to \<^verbatim>\<open>srcEnd\<close> has the scale 0,
  whatever \<^verbatim>\<open>dstStart\<close> and \<^verbatim>\<open>dstEnd\<close> are, and applied to any timestamp it returns
  \<^verbatim>\<open>dstEnd\<close>: no division takes place, the product of the scale and the converted
  difference is zero, and the conversion to \<^verbatim>\<open>int64_t\<close> is defined and gives 0.
\<close>

theorem CreateTimestampConverter_degenerate:
  "scale (CreateTimestampConverter s s dstStart dstEnd) = 0 \<and>
   TimestampConverter_call (CreateTimestampConverter s s dstStart dstEnd) x = Some dstEnd"
  by (simp add: CreateTimestampConverter_def TimestampConverter_call_def
      int64_of_double_def trunc_to_zero_def Let_def)

lemma trunc_to_zero_bounds:
  "\<bar>of_int (trunc_to_zero p)\<bar> \<le> \<bar>p\<bar> \<and> \<bar>p - of_int (trunc_to_zero p)\<bar> < 1"
proof (cases "0 \<le> p")
  case True
  then have t: "trunc_to_zero p = \<lfloor>p\<rfloor>" by (simp add: trunc_to_zero_def)
  have "0 \<le> \<lfloor>p\<rfloor>" using True by simp
  then have f0: "(0::real) \<le> of_int \<lfloor>p\<rfloor>" by simp
  have f1: "of_int \<lfloor>p\<rfloor> \<le> p" by (rule of_int_floor_le)
  have f2: "p < of_int \<lfloor>p\<rfloor> + 1" by linarith
  show ?thesis unfolding t using True f0 f1 f2 by linarith
next
  case False
  then have t: "trunc_to_zero p = \<lceil>p\<rceil>" by (simp add: trunc_to_zero_def)
  have "\<lceil>p\<rceil> \<le> 0" using False by (simp add: ceiling_le_iff)
  then have f0: "of_int \<lceil>p\<rceil> \<le> (0::real)" by simp
  have f1: "p \<le> of_int \<lceil>p\<rceil>" by (rule le_of_int_ceiling)
  have f2: "of_int \<lceil>p\<rceil> < p + 1" by linarith
  show ?thesis unfolding t using False f0 f1 f2 by linarith
qed

text \<open>
  Claim C2 says that the converter returns
  \<^verbatim>\<open>round((x - srcAtSyncPoint) * scale) + dstAtSyncPoint\<close>, rounding to the nearest
  integer. The code converts the product with \<^verbatim>\<open>static_cast<int64_t>\<close>, which drops the
  fractional part. So: a converter built by \<^verbatim>\<open>CreateTimestampConverter\<close> has
  \<^verbatim>\<open>srcAtSyncPoint = srcEnd\<close> and \<^verbatim>\<open>dstAtSyncPoint = dstEnd\<close>; applied to \<open>x\<close> it forms
  the \<^verbatim>\<open>double\<close> product \<open>p\<close> of its scale and \<^verbatim>\<open>x - srcAtSyncPoint\<close>, and returns
  \<open>p\<close> truncated toward zero (the integer no larger in magnitude than \<open>p\<close> and less
  than 1 away from it) plus \<^verbatim>\<open>dstAtSyncPoint\<close>, when that integer is an \<^verbatim>\<open>int64_t\<close>.
  The result is a function of the converter's three fields and \<open>x\<close>.
\<close>

theorem TimestampConverter_call_truncates:
  "let c = CreateTimestampConverter srcStart srcEnd dstStart dstEnd;
       p = to_double (scale c * double_of_int64 (x - srcEnd))
   in srcAtSyncPoint c = srcEnd \<and> dstAtSyncPoint c = dstEnd \<and>
      \<bar>of_int (trunc_to_zero p)\<bar> \<le> \<bar>p\<bar> \<and> \<bar>p - of_int (trunc_to_zero p)\<bar> < 1 \<and>
      TimestampConverter_call c x =
        (if - (2 ^ 63) \<le> trunc_to_zero p \<and> trunc_to_zero p < 2 ^ 63
         then Some (word_of_int (trunc_to_zero p) + dstEnd) else None)"
  using trunc_to_zero_bounds
      [of "to_double (scale (CreateTimestampConverter srcStart srcEnd dstStart dstEnd)
         * double_of_int64 (x - srcEnd))"]
  by (simp add: Let_def CreateTimestampConverter_def TimestampConverter_call_def
      int64_of_double_def)

text \<open>
  The claim as it is written fails for the converter built from the sync points
  \<open>(0, 4)\<close> and \<open>(0, 3)\<close>, whose scale is exactly 3/4, at the timestamp 5: the product
  is 0.75, the code returns 0 + 3 = 3, and rounding to the nearest integer would give
  1 + 3 = 4.
\<close>

theorem TimestampConverter_call_not_rounded:
  "TimestampConverter_call (CreateTimestampConverter 0 4 0 3) 5 = Some 3 \<and>
   (word_of_int (round (of_int (sint (5 - srcAtSyncPoint (CreateTimestampConverter 0 4 0 3)))
       * scale (CreateTimestampConverter 0 4 0 3)))
     + dstAtSyncPoint (CreateTimestampConverter 0 4 0 3) :: int64_t) = 4"
proof -
  have "round (3 / 4 :: real) = 1" by (simp add: round_def)
  then show ?thesis using call_three_quarters by (simp add: converter_three_quarters)
qed

section \<open>Truncating a device name\<close>

lemma quickMin_min: "quickMin a b = min a b"
  by (simp add: quickMin_def min_def)

lemma SetName_name:
  assumes "DeviceDesc_wf desc"
  shows "name (SetName desc nm) =
     take (min (length nm) 238) nm @ 0 # drop (Suc (min (length nm) 238)) (name desc)"
proof -
  let ?n = "min (length nm) 238"
  have len: "length (name desc) = 239" using assms by (simp add: DeviceDesc_wf_def)
  have tl: "length (take ?n nm) = ?n" by simp
  have st: "store (take ?n nm) (name desc) = take ?n nm @ drop ?n (name desc)"
    by (simp add: store_def)
  have ne: "drop ?n (name desc) = name desc ! ?n # drop (Suc ?n) (name desc)"
    using len by (intro Cons_nth_drop_Suc [symmetric]) simp
  have "(take ?n nm @ drop ?n (name desc))[?n := 0] =
      take ?n nm @ (drop ?n (name desc))[0 := 0]"
    using list_update_append [of "take ?n nm" "drop ?n (name desc)" ?n 0] by simp
  also have "\<dots> = take ?n nm @ 0 # drop (Suc ?n) (name desc)"
    by (subst ne) simp
  finally show ?thesis
    by (simp add: SetName_def sizeof_name_def quickMin_min st Let_def)
qed

text \<open>
  Claim C9. \<^verbatim>\<open>SetName\<close> leaves a name buffer of 239 bytes with a zero at index
  \<^verbatim>\<open>min(name.size(), 238)\<close>, preceded by the first bytes of the string, unmodified, and
  that buffer is the name field of the descriptor's image on disk (bytes 16 to 254). For a
  string of 300 characters, the last byte of the field, at index 238, is zero and the 238
  bytes before it are the first 238 characters of the string.
\<close>

theorem SetName_terminator:
  assumes "DeviceDesc_wf desc"
  shows "length (name (SetName desc nm)) = 239 \<and>
    name (SetName desc nm) ! quickMin (length nm) 238 = 0 \<and>
    take (quickMin (length nm) 238) (name (SetName desc nm)) = take 238 nm \<and>
    take 239 (drop 16 (bytes_of_DeviceDesc (SetName desc nm))) = name (SetName desc nm) \<and>
    (length nm = 300 \<longrightarrow>
       name (SetName desc nm) ! 238 = 0 \<and> take 238 (name (SetName desc nm)) = take 238 nm)"
proof -
  let ?n = "min (length nm) 238"
  have len: "length (name desc) = 239" "length (uuid desc) = 16"
    using assms by (simp_all add: DeviceDesc_wf_def)
  have nm: "name (SetName desc nm) = take ?n nm @ 0 # drop (Suc ?n) (name desc)"
    using assms by (rule SetName_name)
  have l: "length (name (SetName desc nm)) = 239"
    using len by (simp add: nm)
  have z: "name (SetName desc nm) ! ?n = 0"
    by (simp add: nm nth_append)
  have t: "take ?n (name (SetName desc nm)) = take 238 nm"
    by (simp add: nm min_def)
  have u: "uuid (SetName desc nm) = uuid desc"
    by (simp add: SetName_def Let_def)
  have f: "take 239 (drop 16 (bytes_of_DeviceDesc (SetName desc nm))) = name (SetName desc nm)"
    using l len by (simp add: bytes_of_DeviceDesc_def u)
  show ?thesis
    using l z t f by (auto simp: quickMin_min)
qed

theorem SetName_terminator_witness:
  "DeviceDesc_wf DeviceDesc_zero \<and> length (replicate 300 (0x41 :: byte)) = 300 \<and>
   length (name (SetName DeviceDesc_zero (replicate 300 0x41))) = 239 \<and>
   name (SetName DeviceDesc_zero (replicate 300 0x41)) ! 238 = 0 \<and>
   take 238 (name (SetName DeviceDesc_zero (replicate 300 0x41))) = replicate 238 0x41"
  using SetName_terminator [of DeviceDesc_zero "replicate 300 0x41"]
  by simp

section \<open>The event label of the adapter\<close>

lemma namehack_at_in_bounds:
  "uint t \<le> 2 \<Longrightarrow> namehack_at (uint (t :: uint16_t)) = Some (namehack ! nat (uint t))"
  by (simp add: namehack_at_def namehack_def)

lemma namehack_at_out_of_bounds:
  "3 \<le> uint t \<Longrightarrow> namehack_at (uint (t :: uint16_t)) = None"
  by (simp add: namehack_at_def namehack_def)

lemma adapt_record_in_bounds:
  "uint (type r) \<le> 2 \<Longrightarrow> \<exists>ev. adapt_record I F r = Some ev"
  by (simp add: adapt_record_def namehack_at_in_bounds)

lemma adapt_record_out_of_bounds:
  "3 \<le> uint (type r) \<Longrightarrow> adapt_record I F r = None"
  by (simp add: adapt_record_def namehack_at_out_of_bounds)

lemma adapt_records_in_bounds:
  "\<forall>r\<in>set recs. uint (type r) \<le> 2 \<Longrightarrow> \<exists>evs. adapt_records I F events recs = Some evs"
proof (induction recs arbitrary: events)
  case Nil
  then show ?case by simp
next
  case (Cons r recs)
  then obtain ev where "adapt_record I F r = Some ev"
    using adapt_record_in_bounds [of r I F] by auto
  then show ?case using Cons by simp
qed

lemma adapt_records_out_of_bounds:
  "r \<in> set recs \<Longrightarrow> 3 \<le> uint (type r) \<Longrightarrow> adapt_records I F events recs = None"
proof (induction recs arbitrary: events)
  case Nil
  then show ?case by simp
next
  case (Cons a recs)
  then show ?case
    by (cases "adapt_record I F a") (auto simp: adapt_record_out_of_bounds)
qed

lemma adapt_devices_in_bounds:
  "i + k \<le> length (perDeviceData fd) \<Longrightarrow>
   \<forall>recs\<in>set (perDeviceData fd). \<forall>r\<in>set recs. uint (type r) \<le> 2 \<Longrightarrow>
   \<exists>evs. adapt_devices I F fd events i k = Some evs"
proof (induction k arbitrary: i events)
  case 0
  then show ?case by simp
next
  case (Suc k)
  have i: "i < length (perDeviceData fd)" using Suc.prems(1) by simp
  then have "perDeviceData fd ! i \<in> set (perDeviceData fd)" by simp
  then have "\<forall>r\<in>set (perDeviceData fd ! i). uint (type r) \<le> 2"
    using Suc.prems(2) by blast
  then obtain evs1 where e: "adapt_records I F events (perDeviceData fd ! i) = Some evs1"
    using adapt_records_in_bounds by blast
  have "\<exists>evs. adapt_devices I F fd evs1 (Suc i) k = Some evs"
    using Suc.prems by (intro Suc.IH) simp_all
  then show ?case using i e by simp
qed

lemma adapt_devices_out_of_bounds:
  "i \<le> j \<Longrightarrow> j < i + k \<Longrightarrow> j < length (perDeviceData fd) \<Longrightarrow>
   r \<in> set (perDeviceData fd ! j) \<Longrightarrow> 3 \<le> uint (type r) \<Longrightarrow>
   adapt_devices I F fd events i k = None"
proof (induction k arbitrary: i events)
  case 0
  then show ?case by simp
next
  case (Suc k)
  show ?case
  proof (cases "i = j")
    case True
    then have "r \<in> set (perDeviceData fd ! i)" using Suc.prems(4) by simp
    then have "adapt_records I F events (perDeviceData fd ! i) = None"
      using Suc.prems(5) by (rule adapt_records_out_of_bounds)
    then show ?thesis by simp
  next
    case False
    then have "adapt_devices I F fd evs (Suc i) k = None" for evs
      using Suc.prems by (intro Suc.IH) simp_all
    then show ?thesis
      by (simp split: option.splits)
  qed
qed

lemma ReadFileData_unknown_type:
  "ReadFileData (Some (nvtrc01Magic
       @ bytes_of_ArrayHeader \<lparr>count = 1, elementSize = 288\<rparr> @ bytes_of_DeviceDesc DeviceDesc_zero
       @ bytes_of_ArrayHeader \<lparr>count = 1, elementSize = 24\<rparr>
       @ bytes_of_RecordGpuCtxSw
           \<lparr>category = 1, type = 3, processId = 100, timestamp = 1000, contextHandle = 7\<rparr>)) =
     (ReturnedTrue,
      \<lparr>deviceDescs = [DeviceDesc_zero],
       perDeviceData = [[\<lparr>category = 1, type = 3, processId = 100, timestamp = 1000,
         contextHandle = 7\<rparr>]]\<rparr>,
      \<lparr>unread = [], failbit = False\<rparr>)"
  using ReadFileData_image [of "\<lparr>deviceDescs = [DeviceDesc_zero],
       perDeviceData = [[\<lparr>category = 1, type = 3, processId = 100, timestamp = 1000,
         contextHandle = 7\<rparr>]]\<rparr>" "[]"]
  by (simp add: vector_image_def sizeof_DeviceDesc_def sizeof_RecordGpuCtxSw_def
      DeviceDesc_layout_def RecordGpuCtxSw_layout_def)

text \<open>
  Claim C10. \<^verbatim>\<open>adapt_events\<close> takes the label of a record from the three-element array
  \<^verbatim>\<open>namehack\<close> at the index \<^verbatim>\<open>int(record.type)\<close>. For a type of 0, 1 or 2 the index is
  within the array, and a capture whose records all have such a type is adapted without
  any access outside an array. For a type of 3 or more the index is outside the array, and
  so is an access of \<^verbatim>\<open>adapt_events\<close> on any capture that holds such a record.
  \<^verbatim>\<open>ReadFileData\<close> does not look at the type: the file of the last conjunct, with one
  record of type 3, is decoded with success.
\<close>

theorem adapt_events_name_index:
  "(uint (type r) \<le> 2 \<longrightarrow>
      namehack_at (uint (type r)) = Some (namehack ! nat (uint (type r))) \<and>
      (\<exists>ev. adapt_record I F r = Some ev)) \<and>
   (3 \<le> uint (type r') \<longrightarrow>
      namehack_at (uint (type r')) = None \<and> adapt_record I F r' = None) \<and>
   (length (deviceDescs fd) \<le> length (perDeviceData fd) \<and>
    (\<forall>recs\<in>set (perDeviceData fd). \<forall>r\<in>set recs. uint (type r) \<le> 2) \<longrightarrow>
      (\<exists>evs. adapt_events I F fd = Some evs)) \<and>
   (i < length (deviceDescs fd') \<and> i < length (perDeviceData fd') \<and>
    r' \<in> set (perDeviceData fd' ! i) \<and> 3 \<le> uint (type r') \<longrightarrow>
      adapt_events I F fd' = None) \<and>
   ReadFileData (Some (nvtrc01Magic
       @ bytes_of_ArrayHeader \<lparr>count = 1, elementSize = 288\<rparr> @ bytes_of_DeviceDesc DeviceDesc_zero
       @ bytes_of_ArrayHeader \<lparr>count = 1, elementSize = 24\<rparr>
       @ bytes_of_RecordGpuCtxSw
           \<lparr>category = 1, type = 3, processId = 100, timestamp = 1000, contextHandle = 7\<rparr>)) =
     (ReturnedTrue,
      \<lparr>deviceDescs = [DeviceDesc_zero],
       perDeviceData = [[\<lparr>category = 1, type = 3, processId = 100, timestamp = 1000,
         contextHandle = 7\<rparr>]]\<rparr>,
      \<lparr>unread = [], failbit = False\<rparr>)"
proof (intro conjI impI)
  assume "uint (type r) \<le> 2"
  then show "namehack_at (uint (type r)) = Some (namehack ! nat (uint (type r)))"
    "\<exists>ev. adapt_record I F r = Some ev"
    by (simp_all add: namehack_at_in_bounds adapt_record_in_bounds)
next
  assume "3 \<le> uint (type r')"
  then show "namehack_at (uint (type r')) = None" "adapt_record I F r' = None"
    by (simp_all add: namehack_at_out_of_bounds adapt_record_out_of_bounds)
next
  assume "length (deviceDescs fd) \<le> length (perDeviceData fd) \<and>
    (\<forall>recs\<in>set (perDeviceData fd). \<forall>r\<in>set recs. uint (type r) \<le> 2)"
  then show "\<exists>evs. adapt_events I F fd = Some evs"
    unfolding adapt_events_def by (intro adapt_devices_in_bounds) simp_all
next
  assume "i < length (deviceDescs fd') \<and> i < length (perDeviceData fd') \<and>
    r' \<in> set (perDeviceData fd' ! i) \<and> 3 \<le> uint (type r')"
  then show "adapt_events I F fd' = None"
    unfolding adapt_events_def by (intro adapt_devices_out_of_bounds [of 0 i _ fd' r']) simp_all
next
  show "ReadFileData (Some (nvtrc01Magic
       @ bytes_of_ArrayHeader \<lparr>count = 1, elementSize = 288\<rparr> @ bytes_of_DeviceDesc DeviceDesc_zero
       @ bytes_of_ArrayHeader \<lparr>count = 1, elementSize = 24\<rparr>
       @ bytes_of_RecordGpuCtxSw
           \<lparr>category = 1, type = 3, processId = 100, timestamp = 1000, contextHandle = 7\<rparr>)) =
     (ReturnedTrue,
      \<lparr>deviceDescs = [DeviceDesc_zero],
       perDeviceData = [[\<lparr>category = 1, type = 3, processId = 100, timestamp = 1000,
         contextHandle = 7\<rparr>]]\<rparr>,
      \<lparr>unread = [], failbit = False\<rparr>)"
    by (rule ReadFileData_unknown_type)
qed

theorem adapt_events_name_index_witness:
  "uint (type \<lparr>category = 1, type = 1, processId = 100, timestamp = 1000, contextHandle = 7\<rparr>) \<le> 2 \<and>
   adapt_record 0 0
     \<lparr>category = 1, type = 1, processId = 100, timestamp = 1000, contextHandle = 7\<rparr> \<noteq> None \<and>
   3 \<le> uint (type \<lparr>category = 1, type = 3, processId = 100, timestamp = 1000, contextHandle = 7\<rparr>) \<and>
   adapt_record 0 0
     \<lparr>category = 1, type = 3, processId = 100, timestamp = 1000, contextHandle = 7\<rparr> = None \<and>
   adapt_events 0 0
     \<lparr>deviceDescs = [DeviceDesc_zero],
      perDeviceData = [[\<lparr>category = 1, type = 1, processId = 100, timestamp = 1000,
        contextHandle = 7\<rparr>]]\<rparr> \<noteq> None \<and>
   adapt_events 0 0
     \<lparr>deviceDescs = [DeviceDesc_zero],
      perDeviceData = [[\<lparr>category = 1, type = 3, processId = 100, timestamp = 1000,
        contextHandle = 7\<rparr>]]\<rparr> = None"
  using adapt_events_name_index
    [of "\<lparr>category = 1, type = 1, processId = 100, timestamp = 1000, contextHandle = 7\<rparr>" 0 0
     "\<lparr>category = 1, type = 3, processId = 100, timestamp = 1000, contextHandle = 7\<rparr>"
     "\<lparr>deviceDescs = [DeviceDesc_zero],
      perDeviceData = [[\<lparr>category = 1, type = 1, processId = 100, timestamp = 1000,
        contextHandle = 7\<rparr>]]\<rparr>"
     0
     "\<lparr>deviceDescs = [DeviceDesc_zero],
      perDeviceData = [[\<lparr>category = 1, type = 3, processId = 100, timestamp = 1000,
        contextHandle = 7\<rparr>]]\<rparr>"]
  by auto

end
